theory Spec2Isabelle
  imports Main "HOL-Library.Word"
begin

unbundle bit_operations_syntax

section \<open>Bytes, errors and byte streams\<close>

text \<open>
  The breach arbiter of \<^verbatim>\<open>breacharbiter.go\<close>: the on-disk encoding of retribution
  records, the retribution store on top of a bolt bucket, the builders of the justice and
  the commitment sweep transaction, and the retribution executor.

  A byte is an 8-bit word. An \<^verbatim>\<open>io.Reader\<close> over a buffer is the list of the bytes
  not yet consumed; a function that reads returns what it read together with the rest.
  An \<^verbatim>\<open>io.Writer\<close> is a \<^verbatim>\<open>bytes.Buffer\<close> (the only writer the file
  uses), whose \<^verbatim>\<open>Write\<close> appends and never fails: a function that writes returns
  the bytes it appended. An error returned in place of a result is an \<open>Inl\<close>; a panic
  is an error of its own.
\<close>

type_synonym byte = "8 word"
type_synonym bytes = "byte list"

datatype error =
    EOF
  | ErrUnexpectedEOF
  | ErrHashSize
  | ErrNonCanonicalVarInt
  | ErrBucketNotExist
  | ErrBucketNameRequired
  | ErrOutputTooSmall
  | ErrKeyRequired
  | ErrKeyTooLarge
  | ErrValueTooLarge
  | PanicMakeSliceLen
  | PanicNilDereference
  | PanicCloseOfNilChannel
  | PanicCloseOfClosedChannel
  | ErrCollaborator string

text \<open>
  \<^verbatim>\<open>io.ReadFull(r, buf[:n])\<close>: exactly \<open>n\<close> bytes, \<^verbatim>\<open>io.EOF\<close> when nothing
  could be read and \<^verbatim>\<open>io.ErrUnexpectedEOF\<close> when the stream ends early.
\<close>

definition ReadFull :: "bytes \<Rightarrow> nat \<Rightarrow> error + (bytes \<times> bytes)" where
  "ReadFull r n =
     (if n \<le> length r then Inr (take n r, drop n r)
      else if r = [] then Inl EOF
      else Inl ErrUnexpectedEOF)"

subsection \<open>\<^verbatim>\<open>encoding/binary\<close>\<close>

definition PutUint64_BE :: "64 word \<Rightarrow> bytes" where
  "PutUint64_BE v =
     [ucast (drop_bit 56 v), ucast (drop_bit 48 v), ucast (drop_bit 40 v),
      ucast (drop_bit 32 v), ucast (drop_bit 24 v), ucast (drop_bit 16 v),
      ucast (drop_bit 8 v), ucast v]"

definition Uint64_BE :: "bytes \<Rightarrow> 64 word" where
  "Uint64_BE b =
     ucast (b ! 7) OR push_bit 8 (ucast (b ! 6)) OR push_bit 16 (ucast (b ! 5)) OR
     push_bit 24 (ucast (b ! 4)) OR push_bit 32 (ucast (b ! 3)) OR
     push_bit 40 (ucast (b ! 2)) OR push_bit 48 (ucast (b ! 1)) OR
     push_bit 56 (ucast (b ! 0))"

definition PutUint16_BE :: "16 word \<Rightarrow> bytes" where
  "PutUint16_BE v = [ucast (drop_bit 8 v), ucast v]"

definition Uint16_BE :: "bytes \<Rightarrow> 16 word" where
  "Uint16_BE b = ucast (b ! 1) OR push_bit 8 (ucast (b ! 0))"

definition PutUint16_LE :: "16 word \<Rightarrow> bytes" where
  "PutUint16_LE v = [ucast v, ucast (drop_bit 8 v)]"

definition Uint16_LE :: "bytes \<Rightarrow> 16 word" where
  "Uint16_LE b = ucast (b ! 0) OR push_bit 8 (ucast (b ! 1))"

definition PutUint32_LE :: "32 word \<Rightarrow> bytes" where
  "PutUint32_LE v =
     [ucast v, ucast (drop_bit 8 v), ucast (drop_bit 16 v), ucast (drop_bit 24 v)]"

definition Uint32_LE :: "bytes \<Rightarrow> 32 word" where
  "Uint32_LE b =
     ucast (b ! 0) OR push_bit 8 (ucast (b ! 1)) OR push_bit 16 (ucast (b ! 2)) OR
     push_bit 24 (ucast (b ! 3))"

definition PutUint64_LE :: "64 word \<Rightarrow> bytes" where
  "PutUint64_LE v =
     [ucast v, ucast (drop_bit 8 v), ucast (drop_bit 16 v), ucast (drop_bit 24 v),
      ucast (drop_bit 32 v), ucast (drop_bit 40 v), ucast (drop_bit 48 v),
      ucast (drop_bit 56 v)]"

definition Uint64_LE :: "bytes \<Rightarrow> 64 word" where
  "Uint64_LE b =
     ucast (b ! 0) OR push_bit 8 (ucast (b ! 1)) OR push_bit 16 (ucast (b ! 2)) OR
     push_bit 24 (ucast (b ! 3)) OR push_bit 32 (ucast (b ! 4)) OR
     push_bit 40 (ucast (b ! 5)) OR push_bit 48 (ucast (b ! 6)) OR
     push_bit 56 (ucast (b ! 7))"

subsection \<open>\<^verbatim>\<open>wire.WriteVarInt\<close> and \<^verbatim>\<open>wire.ReadVarInt\<close>\<close>

text \<open>
  The variable length integer of the Bitcoin wire protocol, as the \<^verbatim>\<open>wire\<close> package
  of btcd implements it: one byte below \<^verbatim>\<open>0xfd\<close>, otherwise a discriminant byte
  and a little-endian value of 2, 4 or 8 bytes; the reader refuses an encoding that is
  longer than needed.
\<close>

definition WriteVarInt :: "64 word \<Rightarrow> bytes" where
  "WriteVarInt val =
     (if val < 0xfd then [ucast val]
      else if val \<le> 0xffff then 0xfd # PutUint16_LE (ucast val)
      else if val \<le> 0xffffffff then 0xfe # PutUint32_LE (ucast val)
      else 0xff # PutUint64_LE val)"

definition ReadVarInt :: "bytes \<Rightarrow> error + (64 word \<times> bytes)" where
  "ReadVarInt r =
     (case ReadFull r 1 of Inl e \<Rightarrow> Inl e
      | Inr (d, r1) \<Rightarrow>
          let discriminant = d ! 0 in
          if discriminant = 0xff then
            (case ReadFull r1 8 of Inl e \<Rightarrow> Inl e
             | Inr (b, r2) \<Rightarrow>
                 let rv = Uint64_LE b in
                 if rv < 0x100000000 then Inl ErrNonCanonicalVarInt else Inr (rv, r2))
          else if discriminant = 0xfe then
            (case ReadFull r1 4 of Inl e \<Rightarrow> Inl e
             | Inr (b, r2) \<Rightarrow>
                 let rv = ucast (Uint32_LE b) in
                 if rv < 0x10000 then Inl ErrNonCanonicalVarInt else Inr (rv, r2))
          else if discriminant = 0xfd then
            (case ReadFull r1 2 of Inl e \<Rightarrow> Inl e
             | Inr (b, r2) \<Rightarrow>
                 let rv = ucast (Uint16_LE b) in
                 if rv < 0xfd then Inl ErrNonCanonicalVarInt else Inr (rv, r2))
          else Inr (ucast discriminant, r1))"

text \<open>\<^verbatim>\<open>chainhash.NewHash\<close>: a hash is exactly 32 bytes.\<close>

definition NewHash :: "bytes \<Rightarrow> error + bytes" where
  "NewHash b = (if length b = 32 then Inr b else Inl ErrHashSize)"

section \<open>The data model\<close>

text \<open>
  \<^verbatim>\<open>wire.OutPoint\<close>, \<^verbatim>\<open>wire.TxIn\<close>, \<^verbatim>\<open>wire.TxOut\<close> and
  \<^verbatim>\<open>wire.MsgTx\<close>. A \<^verbatim>\<open>chainhash.Hash\<close> is an array of 32 bytes; amounts
  (\<^verbatim>\<open>btcutil.Amount\<close>, \<^verbatim>\<open>TxOut.Value\<close>) are signed 64-bit integers, whose
  arithmetic wraps around.
\<close>

record wire_OutPoint =
  Hash :: bytes
  Index :: "32 word"

record wire_TxIn =
  PreviousOutPoint :: wire_OutPoint
  SignatureScript :: bytes
  Witness :: "bytes list"
  Sequence :: "32 word"

record wire_TxOut =
  Value :: "64 word"
  PkScript :: bytes

record wire_MsgTx =
  Version :: "32 word"
  TxIn :: "wire_TxIn list"
  TxOut :: "wire_TxOut list"
  LockTime :: "32 word"

text \<open>
  \<^verbatim>\<open>txscript.TxSigHashes\<close>, the three hashes cached for signing, and
  \<^verbatim>\<open>lnwallet.WitnessGenerator\<close>: from the transaction, its cache and the index of
  the input to the witness stack of that input, or an error.
\<close>

record TxSigHashes =
  HashPrevOuts :: bytes
  HashSequence :: bytes
  HashOutputs :: bytes

type_synonym WitnessGenerator = "wire_MsgTx \<Rightarrow> TxSigHashes \<Rightarrow> int \<Rightarrow> error + bytes list"

text \<open>
  \<^verbatim>\<open>breachedOutput\<close>. The sign descriptor \<open>'sd\<close> belongs to the wallet; the witness type
  is a \<^verbatim>\<open>uint16\<close>; \<open>witnessFunc\<close> is the transient generator, \<open>None\<close> when nil.
\<close>

record 'sd breachedOutput =
  amt :: "64 word"
  outpoint :: wire_OutPoint
  signDescriptor :: 'sd
  witnessType :: "16 word"
  witnessFunc :: "WitnessGenerator option"
  twoStageClaim :: bool

text \<open>
  A Go channel of \<^verbatim>\<open>struct{}\<close> that is only ever closed: nil, open or closed.
\<close>

datatype chan = NilChan | OpenChan | ClosedChan

text \<open>
  \<^verbatim>\<open>retributionInfo\<close>. \<open>selfOutput\<close> and \<open>revokedOutput\<close> are pointers that every
  constructor of the file sets (the breach observer and \<^verbatim>\<open>Decode\<close>); they are modelled
  by the output they point to. \<open>doneChan\<close> is transient.
\<close>

record ('pk, 'sd) retributionInfo =
  commitHash :: bytes
  chanPoint :: wire_OutPoint
  remoteIdentity :: 'pk
  capacity :: "64 word"
  settledBalance :: "64 word"
  selfOutput :: "'sd breachedOutput"
  revokedOutput :: "'sd breachedOutput"
  htlcOutputs :: "'sd breachedOutput list"
  doneChan :: chan

text \<open>
  The serialisation functions the file calls but does not define: \<^verbatim>\<open>writeOutpoint\<close>
  and \<^verbatim>\<open>readOutpoint\<close>, \<^verbatim>\<open>lnwallet.WriteSignDescriptor\<close> and
  \<^verbatim>\<open>lnwallet.ReadSignDescriptor\<close>, and the public key's
  \<^verbatim>\<open>SerializeCompressed\<close> and \<^verbatim>\<open>btcec.ParsePubKey\<close>. They are parameters of
  the model. A reader with a pointer argument gets the value the pointer holds and returns
  the value it leaves there.
\<close>

record ('pk, 'sd) codec =
  writeOutpoint :: "wire_OutPoint \<Rightarrow> error + bytes"
  readOutpoint :: "bytes \<Rightarrow> wire_OutPoint \<Rightarrow> error + (wire_OutPoint \<times> bytes)"
  WriteSignDescriptor :: "'sd \<Rightarrow> error + bytes"
  ReadSignDescriptor :: "bytes \<Rightarrow> 'sd \<Rightarrow> error + ('sd \<times> bytes)"
  SerializeCompressed :: "'pk \<Rightarrow> bytes"
  ParsePubKey :: "bytes \<Rightarrow> error + 'pk"
  zeroSignDescriptor :: 'sd
  zeroPublicKey :: 'pk

section \<open>Encoding and decoding\<close>

text \<open>\<^verbatim>\<open>breachedOutput.Encode\<close>\<close>

definition breachedOutput_Encode ::
  "('pk, 'sd) codec \<Rightarrow> 'sd breachedOutput \<Rightarrow> error + bytes" where
  "breachedOutput_Encode c bo =
     (let w1 = PutUint64_BE (amt bo) in
      case writeOutpoint c (outpoint bo) of Inl e \<Rightarrow> Inl e
      | Inr w2 \<Rightarrow>
     (case WriteSignDescriptor c (signDescriptor bo) of Inl e \<Rightarrow> Inl e
      | Inr w3 \<Rightarrow>
          let w4 = PutUint16_BE (witnessType bo);
              w5 = (if twoStageClaim bo then [1] else [0])
          in Inr (w1 @ w2 @ w3 @ w4 @ w5)))"

text \<open>
  \<^verbatim>\<open>breachedOutput.Decode\<close>, on the receiver \<open>bo\<close>: the fields are assigned as they
  are read, and \<open>witnessFunc\<close> is left as the receiver has it.
\<close>

definition breachedOutput_Decode ::
  "('pk, 'sd) codec \<Rightarrow> 'sd breachedOutput \<Rightarrow> bytes \<Rightarrow>
     error + ('sd breachedOutput \<times> bytes)" where
  "breachedOutput_Decode c bo r =
     (case ReadFull r 8 of Inl e \<Rightarrow> Inl e
      | Inr (s1, r1) \<Rightarrow>
     (case readOutpoint c r1 (outpoint bo) of Inl e \<Rightarrow> Inl e
      | Inr (op, r2) \<Rightarrow>
     (case ReadSignDescriptor c r2 (signDescriptor bo) of Inl e \<Rightarrow> Inl e
      | Inr (sd, r3) \<Rightarrow>
     (case ReadFull r3 2 of Inl e \<Rightarrow> Inl e
      | Inr (s2, r4) \<Rightarrow>
     (case ReadFull r4 1 of Inl e \<Rightarrow> Inl e
      | Inr (s3, r5) \<Rightarrow>
          Inr (bo\<lparr>amt := Uint64_BE s1, outpoint := op, signDescriptor := sd,
                  witnessType := Uint16_BE s2,
                  twoStageClaim := (if s3 ! 0 = 1 then True else False)\<rparr>, r5))))))"

text \<open>The zero values \<^verbatim>\<open>wire.OutPoint{}\<close> and \<^verbatim>\<open>&breachedOutput{}\<close>.\<close>

definition zero_OutPoint :: wire_OutPoint where
  "zero_OutPoint = \<lparr>Hash = replicate 32 0, Index = 0\<rparr>"

definition zero_breachedOutput :: "('pk, 'sd) codec \<Rightarrow> 'sd breachedOutput" where
  "zero_breachedOutput c =
     \<lparr>amt = 0, outpoint = zero_OutPoint, signDescriptor = zeroSignDescriptor c,
      witnessType = 0, witnessFunc = None, twoStageClaim = False\<rparr>"

text \<open>The loop of \<^verbatim>\<open>retributionInfo.Encode\<close> over \<open>htlcOutputs\<close>.\<close>

fun encode_htlcOutputs ::
  "('pk, 'sd) codec \<Rightarrow> 'sd breachedOutput list \<Rightarrow> error + bytes" where
  "encode_htlcOutputs c [] = Inr []"
| "encode_htlcOutputs c (bo # bos) =
     (case breachedOutput_Encode c bo of Inl e \<Rightarrow> Inl e
      | Inr w \<Rightarrow>
     (case encode_htlcOutputs c bos of Inl e \<Rightarrow> Inl e
      | Inr ws \<Rightarrow> Inr (w @ ws)))"

text \<open>\<^verbatim>\<open>retributionInfo.Encode\<close>\<close>

definition retributionInfo_Encode ::
  "('pk, 'sd) codec \<Rightarrow> ('pk, 'sd) retributionInfo \<Rightarrow> error + bytes" where
  "retributionInfo_Encode c ret =
     (let w1 = commitHash ret in
      case writeOutpoint c (chanPoint ret) of Inl e \<Rightarrow> Inl e
      | Inr w2 \<Rightarrow>
          let w3 = SerializeCompressed c (remoteIdentity ret);
              w4 = PutUint64_BE (capacity ret);
              w5 = PutUint64_BE (settledBalance ret)
          in
     (case breachedOutput_Encode c (selfOutput ret) of Inl e \<Rightarrow> Inl e
      | Inr w6 \<Rightarrow>
     (case breachedOutput_Encode c (revokedOutput ret) of Inl e \<Rightarrow> Inl e
      | Inr w7 \<Rightarrow>
          let numHtlcOutputs = length (htlcOutputs ret);
              w8 = WriteVarInt (of_nat numHtlcOutputs)
          in
     (case encode_htlcOutputs c (htlcOutputs ret) of Inl e \<Rightarrow> Inl e
      | Inr w9 \<Rightarrow> Inr (w1 @ w2 @ w3 @ w4 @ w5 @ w6 @ w7 @ w8 @ w9)))))"

text \<open>
  The loop of \<^verbatim>\<open>retributionInfo.Decode\<close>: \<open>n\<close> outputs, each decoded into a fresh
  \<^verbatim>\<open>&breachedOutput{}\<close>.
\<close>

fun decode_htlcOutputs ::
  "('pk, 'sd) codec \<Rightarrow> nat \<Rightarrow> bytes \<Rightarrow>
     error + ('sd breachedOutput list \<times> bytes)" where
  "decode_htlcOutputs c 0 r = Inr ([], r)"
| "decode_htlcOutputs c (Suc n) r =
     (case breachedOutput_Decode c (zero_breachedOutput c) r of Inl e \<Rightarrow> Inl e
      | Inr (bo, r1) \<Rightarrow>
     (case decode_htlcOutputs c n r1 of Inl e \<Rightarrow> Inl e
      | Inr (bos, r2) \<Rightarrow> Inr (bo # bos, r2)))"

text \<open>
  \<^verbatim>\<open>make([]*breachedOutput, n)\<close> on a 64-bit platform: the runtime refuses, with the
  panic \<^verbatim>\<open>makeslice: len out of range\<close>, a negative length and a length whose
  elements, pointers of 8 bytes, need more than \<open>maxAlloc\<close> bytes, the \<open>2^48\<close> bytes
  of address space the heap can have. Whether the machine has the memory for a length
  that is accepted is not modelled.
\<close>

definition maxAlloc :: nat where
  "maxAlloc = 2 ^ 48"

text \<open>
  \<^verbatim>\<open>retributionInfo.Decode\<close>, on the receiver \<open>ret\<close>. The count of HTLC outputs is
  converted to \<^verbatim>\<open>int\<close> (64 bits) and is the length of the slice that
  \<^verbatim>\<open>make\<close> allocates before the loop. \<open>doneChan\<close> is left as the receiver has it.
\<close>

definition retributionInfo_Decode ::
  "('pk, 'sd) codec \<Rightarrow> ('pk, 'sd) retributionInfo \<Rightarrow> bytes \<Rightarrow>
     error + (('pk, 'sd) retributionInfo \<times> bytes)" where
  "retributionInfo_Decode c ret r =
     (case ReadFull r 32 of Inl e \<Rightarrow> Inl e
      | Inr (s1, r1) \<Rightarrow>
     (case NewHash s1 of Inl e \<Rightarrow> Inl e
      | Inr hash \<Rightarrow>
     (case readOutpoint c r1 (chanPoint ret) of Inl e \<Rightarrow> Inl e
      | Inr (cp, r2) \<Rightarrow>
     (case ReadFull r2 33 of Inl e \<Rightarrow> Inl e
      | Inr (s2, r3) \<Rightarrow>
     (case ParsePubKey c s2 of Inl e \<Rightarrow> Inl e
      | Inr pk \<Rightarrow>
     (case ReadFull r3 8 of Inl e \<Rightarrow> Inl e
      | Inr (s3, r4) \<Rightarrow>
     (case ReadFull r4 8 of Inl e \<Rightarrow> Inl e
      | Inr (s4, r5) \<Rightarrow>
     (case breachedOutput_Decode c (zero_breachedOutput c) r5 of Inl e \<Rightarrow> Inl e
      | Inr (so, r6) \<Rightarrow>
     (case breachedOutput_Decode c (zero_breachedOutput c) r6 of Inl e \<Rightarrow> Inl e
      | Inr (ro, r7) \<Rightarrow>
     (case ReadVarInt r7 of Inl e \<Rightarrow> Inl e
      | Inr (numHtlcOutputsU64, r8) \<Rightarrow>
          if sint numHtlcOutputsU64 < 0 \<or> maxAlloc < 8 * unat numHtlcOutputsU64
          then Inl PanicMakeSliceLen
          else
     (case decode_htlcOutputs c (unat numHtlcOutputsU64) r8 of Inl e \<Rightarrow> Inl e
      | Inr (hs, r9) \<Rightarrow>
          Inr (ret\<lparr>commitHash := hash, chanPoint := cp, remoteIdentity := pk,
                   capacity := Uint64_BE s3, settledBalance := Uint64_BE s4,
                   selfOutput := so, revokedOutput := ro, htlcOutputs := hs\<rparr>,
               r9))))))))))))"

text \<open>
  The zero value \<^verbatim>\<open>&retributionInfo{}\<close>. Its two nil output pointers are shown as
  zero outputs: \<^verbatim>\<open>Decode\<close> replaces both before anything reads them.
\<close>

definition zero_retributionInfo ::
  "('pk, 'sd) codec \<Rightarrow> ('pk, 'sd) retributionInfo" where
  "zero_retributionInfo c =
     \<lparr>commitHash = replicate 32 0, chanPoint = zero_OutPoint,
      remoteIdentity = zeroPublicKey c, capacity = 0, settledBalance = 0,
      selfOutput = zero_breachedOutput c, revokedOutput = zero_breachedOutput c,
      htlcOutputs = [], doneChan = NilChan\<rparr>"

text \<open>
  What the encoding needs from the serialisation functions it calls, for one value: the
  writer succeeds, and the reader, started on a zero value and on what the writer wrote
  followed by any further bytes, returns the value and leaves exactly those bytes. For a
  public key: its compressed form has 33 bytes and parses back to the key, which is what
  a valid compressed secp256k1 key does.
\<close>

definition outpoint_roundtrip :: "('pk, 'sd) codec \<Rightarrow> wire_OutPoint \<Rightarrow> bool" where
  "outpoint_roundtrip c op =
     (\<exists>w. writeOutpoint c op = Inr w \<and>
          (\<forall>rest. readOutpoint c (w @ rest) zero_OutPoint = Inr (op, rest)))"

definition signDescriptor_roundtrip :: "('pk, 'sd) codec \<Rightarrow> 'sd \<Rightarrow> bool" where
  "signDescriptor_roundtrip c sd =
     (\<exists>w. WriteSignDescriptor c sd = Inr w \<and>
          (\<forall>rest. ReadSignDescriptor c (w @ rest) (zeroSignDescriptor c) = Inr (sd, rest)))"

definition pubKey_roundtrip :: "('pk, 'sd) codec \<Rightarrow> 'pk \<Rightarrow> bool" where
  "pubKey_roundtrip c pk =
     (length (SerializeCompressed c pk) = 33 \<and>
      ParsePubKey c (SerializeCompressed c pk) = Inr pk)"

definition breachedOutput_wf :: "('pk, 'sd) codec \<Rightarrow> 'sd breachedOutput \<Rightarrow> bool" where
  "breachedOutput_wf c bo =
     (outpoint_roundtrip c (outpoint bo) \<and> signDescriptor_roundtrip c (signDescriptor bo))"

text \<open>
  A retribution as the program holds it: the commit hash is an array of 32 bytes, and
  \<open>htlcOutputs\<close> is a slice of pointers, whose length is one that \<^verbatim>\<open>make\<close>
  accepts.
\<close>

definition retributionInfo_wf ::
  "('pk, 'sd) codec \<Rightarrow> ('pk, 'sd) retributionInfo \<Rightarrow> bool" where
  "retributionInfo_wf c ret =
     (length (commitHash ret) = 32 \<and>
      outpoint_roundtrip c (chanPoint ret) \<and>
      pubKey_roundtrip c (remoteIdentity ret) \<and>
      breachedOutput_wf c (selfOutput ret) \<and>
      breachedOutput_wf c (revokedOutput ret) \<and>
      list_all (breachedOutput_wf c) (htlcOutputs ret) \<and>
      8 * length (htlcOutputs ret) \<le> maxAlloc)"

text \<open>The persisted fields of a record: the record with its transient fields nil.\<close>

definition persisted_breachedOutput ::
  "'sd breachedOutput \<Rightarrow> 'sd breachedOutput" where
  "persisted_breachedOutput bo = bo\<lparr>witnessFunc := None\<rparr>"

definition persisted_retributionInfo ::
  "('pk, 'sd) retributionInfo \<Rightarrow> ('pk, 'sd) retributionInfo" where
  "persisted_retributionInfo ret =
     ret\<lparr>selfOutput := persisted_breachedOutput (selfOutput ret),
         revokedOutput := persisted_breachedOutput (revokedOutput ret),
         htlcOutputs := map persisted_breachedOutput (htlcOutputs ret),
         doneChan := NilChan\<rparr>"

section \<open>The retribution store\<close>

text \<open>
  The store keeps its records in the bucket \<^verbatim>\<open>"retribution"\<close> of a bolt database.
  A bucket holds key/value pairs with distinct keys, kept and iterated in the byte order
  of the keys. A database is the map from bucket names to buckets; inside a transaction
  the functions below work on the transaction's copy of it. \<^verbatim>\<open>Update\<close> commits the
  copy when its function returns nil and drops it otherwise; \<^verbatim>\<open>View\<close> never
  changes the database. Failures of the disk are not part of the model.

  A Go function that returns only an \<^verbatim>\<open>error\<close> returns an \<open>error option\<close> here, nil
  being \<open>None\<close>, next to the state it leaves.
\<close>

type_synonym bucket = "(bytes \<times> bytes) list"
type_synonym DB = "string \<rightharpoonup> bucket"

definition retributionBucket :: string where
  "retributionBucket = ''retribution''"

fun bytes_less :: "bytes \<Rightarrow> bytes \<Rightarrow> bool" where
  "bytes_less [] [] = False"
| "bytes_less [] (y # ys) = True"
| "bytes_less (x # xs) [] = False"
| "bytes_less (x # xs) (y # ys) = (x < y \<or> (x = y \<and> bytes_less xs ys))"

fun insert_sorted :: "bytes \<Rightarrow> bytes \<Rightarrow> bucket \<Rightarrow> bucket" where
  "insert_sorted k v [] = [(k, v)]"
| "insert_sorted k v ((k', v') # b) =
     (if bytes_less k k' then (k, v) # (k', v') # b else (k', v') # insert_sorted k v b)"

definition MaxKeySize :: nat where
  "MaxKeySize = 32768"

definition MaxValueSize :: nat where
  "MaxValueSize = 2 ^ 31 - 2"

text \<open>
  \<^verbatim>\<open>Bucket.Put\<close>: the value of an existing key is replaced, a new key is inserted at
  its place in the order.
\<close>

definition Bucket_Put :: "bytes \<Rightarrow> bytes \<Rightarrow> bucket \<Rightarrow> error + bucket" where
  "Bucket_Put key val b =
     (if key = [] then Inl ErrKeyRequired
      else if MaxKeySize < length key then Inl ErrKeyTooLarge
      else if MaxValueSize < length val then Inl ErrValueTooLarge
      else if key \<in> set (map fst b)
        then Inr (map (\<lambda>(k, v). if k = key then (k, val) else (k, v)) b)
      else Inr (insert_sorted key val b))"

text \<open>
  \<^verbatim>\<open>Bucket.Delete\<close>, in a writable transaction: bolt documents that if the key does
  not exist then nothing is done and a nil error is returned, so the function has no
  error to return here.
\<close>

definition Bucket_Delete :: "bytes \<Rightarrow> bucket \<Rightarrow> bucket" where
  "Bucket_Delete key b = filter (\<lambda>(k, v). k \<noteq> key) b"

text \<open>
  \<^verbatim>\<open>Bucket.ForEach\<close>: the callback, a closure that changes a state \<open>'s\<close> of its own,
  runs on every pair in order; its first error stops the iteration and is returned.
\<close>

fun Bucket_ForEach ::
  "(bytes \<Rightarrow> bytes \<Rightarrow> 's \<Rightarrow> error option \<times> 's) \<Rightarrow> bucket \<Rightarrow> 's \<Rightarrow> error option \<times> 's" where
  "Bucket_ForEach fn [] s = (None, s)"
| "Bucket_ForEach fn ((k, v) # b) s =
     (case fn k v s of
        (Some e, s') \<Rightarrow> (Some e, s')
      | (None, s') \<Rightarrow> Bucket_ForEach fn b s')"

definition CreateBucketIfNotExists :: "string \<Rightarrow> DB \<Rightarrow> error + (bucket \<times> DB)" where
  "CreateBucketIfNotExists name tx =
     (if name = [] then Inl ErrBucketNameRequired
      else case tx name of
             None \<Rightarrow> Inr ([], tx(name \<mapsto> []))
           | Some b \<Rightarrow> Inr (b, tx))"

definition db_Update :: "(DB \<Rightarrow> error option \<times> DB) \<Rightarrow> DB \<Rightarrow> error option \<times> DB" where
  "db_Update fn db =
     (case fn db of
        (Some e, tx) \<Rightarrow> (Some e, db)
      | (None, tx) \<Rightarrow> (None, tx))"

definition db_View :: "(DB \<Rightarrow> error option \<times> 's) \<Rightarrow> DB \<Rightarrow> error option \<times> 's" where
  "db_View fn db = fn db"

text \<open>\<^verbatim>\<open>retributionStore.Add\<close>\<close>

definition retributionStore_Add ::
  "('pk, 'sd) codec \<Rightarrow> ('pk, 'sd) retributionInfo \<Rightarrow> DB \<Rightarrow> error option \<times> DB" where
  "retributionStore_Add c ret db =
     db_Update (\<lambda>tx.
       case CreateBucketIfNotExists retributionBucket tx of Inl e \<Rightarrow> (Some e, tx)
       | Inr (retBucket, tx1) \<Rightarrow>
      (case writeOutpoint c (chanPoint ret) of Inl e \<Rightarrow> (Some e, tx1)
       | Inr outBuf \<Rightarrow>
      (case retributionInfo_Encode c ret of Inl e \<Rightarrow> (Some e, tx1)
       | Inr retBuf \<Rightarrow>
      (case Bucket_Put outBuf retBuf retBucket of Inl e \<Rightarrow> (Some e, tx1)
       | Inr retBucket' \<Rightarrow> (None, tx1(retributionBucket \<mapsto> retBucket')))))) db"

text \<open>\<^verbatim>\<open>retributionStore.Remove\<close>\<close>

definition retributionStore_Remove ::
  "('pk, 'sd) codec \<Rightarrow> wire_OutPoint \<Rightarrow> DB \<Rightarrow> error option \<times> DB" where
  "retributionStore_Remove c key db =
     db_Update (\<lambda>tx.
       case tx retributionBucket of None \<Rightarrow> (Some ErrBucketNotExist, tx)
       | Some retBucket \<Rightarrow>
      (case writeOutpoint c key of Inl e \<Rightarrow> (Some e, tx)
       | Inr outBuf \<Rightarrow>
           (None, tx(retributionBucket \<mapsto> Bucket_Delete outBuf retBucket)))) db"

text \<open>
  \<^verbatim>\<open>retributionStore.ForAll\<close>: every value is decoded into a fresh
  \<^verbatim>\<open>&retributionInfo{}\<close> from a buffer of its own (bytes after the record are
  ignored) and handed to the callback \<open>cb\<close>, which works on a state \<open>s\<close>.
\<close>

definition retributionStore_ForAll ::
  "('pk, 'sd) codec \<Rightarrow> (('pk, 'sd) retributionInfo \<Rightarrow> 's \<Rightarrow> error option \<times> 's) \<Rightarrow>
     DB \<Rightarrow> 's \<Rightarrow> error option \<times> 's" where
  "retributionStore_ForAll c cb db s =
     db_View (\<lambda>tx.
       case tx retributionBucket of None \<Rightarrow> (None, s)
       | Some retBucket \<Rightarrow>
           Bucket_ForEach (\<lambda>outBytes retBytes s'.
             case retributionInfo_Decode c (zero_retributionInfo c) retBytes of
               Inl e \<Rightarrow> (Some e, s')
             | Inr (ret, rest) \<Rightarrow> cb ret s') retBucket s) db"

text \<open>
  A callback for \<^verbatim>\<open>ForAll\<close> that never fails and appends the record it is given
  to the list of the records seen so far.
\<close>

definition collect :: "'r \<Rightarrow> 'r list \<Rightarrow> error option \<times> 'r list" where
  "collect ret seen = (None, seen @ [ret])"

text \<open>
  What \<^verbatim>\<open>Add\<close> leaves in the bucket: a pair is the entry of a well-formed
  retribution when its key is the written channel point and its value the encoded
  retribution. In a well-formed store every pair of the bucket is the entry of one.
\<close>

definition entry_of ::
  "('pk, 'sd) codec \<Rightarrow> ('pk, 'sd) retributionInfo \<Rightarrow> bytes \<times> bytes \<Rightarrow> bool" where
  "entry_of c ret kv =
     (retributionInfo_wf c ret \<and> writeOutpoint c (chanPoint ret) = Inr (fst kv) \<and>
      retributionInfo_Encode c ret = Inr (snd kv))"

definition bucket_wf :: "('pk, 'sd) codec \<Rightarrow> bucket \<Rightarrow> bool" where
  "bucket_wf c b = (distinct (map fst b) \<and> list_all (\<lambda>kv. \<exists>ret. entry_of c ret kv) b)"

definition store_wf :: "('pk, 'sd) codec \<Rightarrow> DB \<Rightarrow> bool" where
  "store_wf c db = (case db retributionBucket of None \<Rightarrow> True | Some b \<Rightarrow> bucket_wf c b)"

section \<open>The sweep transactions\<close>

text \<open>
  \<^verbatim>\<open>wire.NewMsgTx\<close>, \<^verbatim>\<open>AddTxIn\<close> and \<^verbatim>\<open>AddTxOut\<close>. An input built as
  \<^verbatim>\<open>&wire.TxIn{PreviousOutPoint: op}\<close> has the zero value in its other fields.
\<close>

definition NewMsgTx :: "32 word \<Rightarrow> wire_MsgTx" where
  "NewMsgTx version = \<lparr>Version = version, TxIn = [], TxOut = [], LockTime = 0\<rparr>"

definition AddTxIn :: "wire_TxIn \<Rightarrow> wire_MsgTx \<Rightarrow> wire_MsgTx" where
  "AddTxIn ti tx = tx\<lparr>TxIn := TxIn tx @ [ti]\<rparr>"

definition AddTxOut :: "wire_TxOut \<Rightarrow> wire_MsgTx \<Rightarrow> wire_MsgTx" where
  "AddTxOut to tx = tx\<lparr>TxOut := TxOut tx @ [to]\<rparr>"

definition TxIn_of :: "wire_OutPoint \<Rightarrow> wire_TxIn" where
  "TxIn_of op = \<lparr>PreviousOutPoint = op, SignatureScript = [], Witness = [], Sequence = 0\<rparr>"

text \<open>\<^verbatim>\<open>tx.TxIn[i].Witness = w\<close>; the index is in range wherever the file does it.\<close>

definition set_Witness :: "nat \<Rightarrow> bytes list \<Rightarrow> wire_MsgTx \<Rightarrow> wire_MsgTx" where
  "set_Witness i w tx = tx\<lparr>TxIn := (TxIn tx)[i := (TxIn tx ! i)\<lparr>Witness := w\<rparr>]\<rparr>"

text \<open>
  The fields of \<^verbatim>\<open>lnwallet.SignDescriptor\<close> that \<^verbatim>\<open>craftCommitSweepTx\<close> reads or
  sets. \<open>Output\<close> is a pointer to the output being spent, which the wallet always sets.
\<close>

record 'pk SignDescriptor =
  PubKey :: 'pk
  SingleTweak :: bytes
  Output :: wire_TxOut
  SigHashes :: "TxSigHashes option"
  InputIndex :: int

text \<open>
  What the two builders get from the wallet and its signer: the result of
  \<^verbatim>\<open>newSweepPkScript\<close> for the call, \<^verbatim>\<open>WitnessType.GenWitnessFunc\<close> applied to
  the wallet's signer, \<^verbatim>\<open>txscript.NewTxSigHashes\<close>, \<^verbatim>\<open>Signer.SignOutputRaw\<close>,
  \<^verbatim>\<open>lnwallet.TweakPubKeyWithTweak\<close> and the \<^verbatim>\<open>SerializeCompressed\<close> of a key.
\<close>

record ('pk, 'sd) wallet =
  newSweepPkScript :: "error + bytes"
  GenWitnessFunc :: "16 word \<Rightarrow> 'sd \<Rightarrow> WitnessGenerator"
  NewTxSigHashes :: "wire_MsgTx \<Rightarrow> TxSigHashes"
  SignOutputRaw :: "wire_MsgTx \<Rightarrow> 'pk SignDescriptor \<Rightarrow> error + bytes"
  TweakPubKeyWithTweak :: "'pk \<Rightarrow> bytes \<Rightarrow> 'pk"
  keySerializeCompressed :: "'pk \<Rightarrow> bytes"

text \<open>
  \<^verbatim>\<open>createJusticeTx\<close>. It attaches the witness generators to the outputs of \<open>r\<close>, so the
  retribution it leaves is returned with the result. The swept amount is computed on
  \<^verbatim>\<open>btcutil.Amount\<close>, a signed 64-bit integer.
\<close>

definition createJusticeTx ::
  "('k, 'sd) wallet \<Rightarrow> ('pk, 'sd) retributionInfo \<Rightarrow>
     (error + wire_MsgTx) \<times> ('pk, 'sd) retributionInfo" where
  "createJusticeTx b r =
     (case newSweepPkScript b of Inl e \<Rightarrow> (Inl e, r)
      | Inr pkScriptOfJustice \<Rightarrow>
          let gen = (\<lambda>bo. GenWitnessFunc b (witnessType bo) (signDescriptor bo));
              r1 = r\<lparr>selfOutput := (selfOutput r)\<lparr>witnessFunc := Some (gen (selfOutput r))\<rparr>\<rparr>;
              r2 = r1\<lparr>revokedOutput :=
                        (revokedOutput r1)\<lparr>witnessFunc := Some (gen (revokedOutput r1))\<rparr>\<rparr>;
              r3 = r2\<lparr>htlcOutputs :=
                        map (\<lambda>bo. bo\<lparr>witnessFunc := Some (gen bo)\<rparr>) (htlcOutputs r2)\<rparr>;
              totalAmt = amt (selfOutput r3) + amt (revokedOutput r3);
              sweepedAmt = totalAmt - 5000;
              justiceTx =
                AddTxIn (TxIn_of (outpoint (revokedOutput r3)))
                  (AddTxIn (TxIn_of (outpoint (selfOutput r3)))
                    (AddTxOut \<lparr>Value = sweepedAmt, PkScript = pkScriptOfJustice\<rparr>
                      (NewMsgTx 2)));
              hashCache = NewTxSigHashes b justiceTx
          in
     (case gen (selfOutput r3) justiceTx hashCache 0 of Inl e \<Rightarrow> (Inl e, r3)
      | Inr localWitness \<Rightarrow>
          let justiceTx1 = set_Witness 0 localWitness justiceTx in
     (case gen (revokedOutput r3) justiceTx1 hashCache 1 of Inl e \<Rightarrow> (Inl e, r3)
      | Inr remoteWitness \<Rightarrow>
          (Inr (set_Witness 1 remoteWitness justiceTx1), r3))))"

text \<open>
  The fields of \<^verbatim>\<open>lnwallet.UnilateralCloseSummary\<close> that
  \<^verbatim>\<open>craftCommitSweepTx\<close> reads. \<open>SelfOutPoint\<close> is a pointer that is nil when the
  commitment has no output of ours.
\<close>

record 'pk UnilateralCloseSummary =
  SelfOutPoint :: "wire_OutPoint option"
  SelfOutputSignDesc :: "'pk SignDescriptor"

definition SigHashAll :: byte where
  "SigHashAll = 1"

text \<open>
  \<^verbatim>\<open>craftCommitSweepTx\<close>. The subtraction is on \<^verbatim>\<open>int64\<close> and the test
  \<^verbatim>\<open>sweepAmt <= 0\<close> is signed.
\<close>

definition craftCommitSweepTx ::
  "('pk, 'sd) wallet \<Rightarrow> 'pk UnilateralCloseSummary \<Rightarrow>
     error + wire_MsgTx" where
  "craftCommitSweepTx b closeInfo =
     (case newSweepPkScript b of Inl e \<Rightarrow> Inl e
      | Inr sweepPkScript \<Rightarrow>
          let outputAmt = Value (Output (SelfOutputSignDesc closeInfo));
              sweepAmt = outputAmt - 5000
          in
          if sint sweepAmt \<le> 0 then Inl ErrOutputTooSmall
          else
     (case SelfOutPoint closeInfo of None \<Rightarrow> Inl PanicNilDereference
      | Some selfOutPoint \<Rightarrow>
          let sweepTx =
                AddTxOut \<lparr>Value = sweepAmt, PkScript = sweepPkScript\<rparr>
                  (AddTxIn (TxIn_of selfOutPoint) (NewMsgTx 1));
              signDesc = (SelfOutputSignDesc closeInfo)
                \<lparr>SigHashes := Some (NewTxSigHashes b sweepTx), InputIndex := 0\<rparr>
          in
     (case SignOutputRaw b sweepTx signDesc of Inl e \<Rightarrow> Inl e
      | Inr sweepSig \<Rightarrow>
          let witness =
                [sweepSig @ [SigHashAll],
                 keySerializeCompressed b
                   (TweakPubKeyWithTweak b (PubKey signDesc) (SingleTweak signDesc))]
          in Inr (set_Witness 0 witness sweepTx))))"

section \<open>The retribution executor\<close>

text \<open>
  \<^verbatim>\<open>exactRetribution\<close> blocks twice in a \<^verbatim>\<open>select\<close> over the \<^verbatim>\<open>Confirmed\<close>
  channel of a confirmation event and the arbiter's \<^verbatim>\<open>quit\<close> channel. What the
  \<^verbatim>\<open>select\<close> yields is an input of the model: a confirmation (\<^verbatim>\<open>ok\<close> true),
  the \<^verbatim>\<open>Confirmed\<close> channel closed by the notifier (\<^verbatim>\<open>ok\<close> false), \<^verbatim>\<open>quit\<close>
  closed, or nothing ever.
\<close>

datatype recv = Confirmed | ChannelClosed | Quit | Never

text \<open>The calls of the executor that leave the function, in the order it makes them.\<close>

datatype call =
    Call_createJusticeTx
  | Call_GetBestBlock
  | Call_PublishTransaction wire_MsgTx
  | Call_RegisterConfirmationsNtfn bytes
  | Call_MarkChanFullyClosed wire_OutPoint
  | Call_Remove wire_OutPoint
  | Call_close_doneChan

text \<open>
  The collaborators of the arbiter. The chain, the wallet and the notifier answer as the
  record says: \<open>GetBestBlock\<close> with an error or a hash and a height,
  \<open>PublishTransaction\<close> with an error or nil, \<open>RegisterConfirmationsNtfn\<close> with an
  error or a confirmation event, given by what a \<^verbatim>\<open>select\<close> on it will yield, and
  \<open>MarkChanFullyClosed\<close> with the error of the channel database or nil.
\<close>

record ('pk, 'sd) breachArbiter =
  wallet :: "('pk, 'sd) wallet"
  store_codec :: "('pk, 'sd) codec"
  GetBestBlock :: "error + (bytes \<times> 32 word)"
  PublishTransaction :: "wire_MsgTx \<Rightarrow> error option"
  TxHash :: "wire_MsgTx \<Rightarrow> bytes"
  RegisterConfirmationsNtfn :: "bytes \<Rightarrow> 32 word \<Rightarrow> 32 word \<Rightarrow> error + recv"
  MarkChanFullyClosed :: "wire_OutPoint \<Rightarrow> error option"

text \<open>
  The state the executor works on: the bolt database of the retribution store, the
  channel points the channel database has marked fully closed, the transactions the
  wallet has published, and the calls made so far.
\<close>

record node =
  db :: DB
  fullyClosed :: "wire_OutPoint list"
  published :: "wire_MsgTx list"
  calls :: "call list"

datatype exit = Returned | Panicked error | Blocked

definition called :: "call \<Rightarrow> node \<Rightarrow> node" where
  "called c st = st\<lparr>calls := calls st @ [c]\<rparr>"

text \<open>\<^verbatim>\<open>close(ch)\<close> panics on a nil and on a closed channel.\<close>

definition close_chan :: "chan \<Rightarrow> error + chan" where
  "close_chan ch =
     (case ch of
        NilChan \<Rightarrow> Inl PanicCloseOfNilChannel
      | ClosedChan \<Rightarrow> Inl PanicCloseOfClosedChannel
      | OpenChan \<Rightarrow> Inr ClosedChan)"

text \<open>
  Modelled from the spec: \<^verbatim>\<open>channeldb.DB.MarkChanFullyClosed\<close> is not in the file.
  The spec has the channel database mark a channel fully closed
  (\<^verbatim>\<open>markChanFullyClosed(chanPoint)\<close>); the call either fails, changing nothing, or
  records the channel point among those fully closed.
\<close>

definition db_MarkChanFullyClosed ::
  "('pk, 'sd) breachArbiter \<Rightarrow> wire_OutPoint \<Rightarrow> node \<Rightarrow> error option \<times> node" where
  "db_MarkChanFullyClosed b cp st =
     (case MarkChanFullyClosed b cp of
        Some e \<Rightarrow> (Some e, st)
      | None \<Rightarrow> (None, st\<lparr>fullyClosed := cp # fullyClosed st\<rparr>))"

text \<open>
  The last part of \<^verbatim>\<open>exactRetribution\<close>, after the confirmation of the justice
  transaction: both errors are logged and nothing else.
\<close>

definition finalize ::
  "('pk, 'sd) breachArbiter \<Rightarrow> ('pk, 'sd) retributionInfo \<Rightarrow> node \<Rightarrow>
     exit \<times> ('pk, 'sd) retributionInfo \<times> node" where
  "finalize b breachInfo st =
     (let (err, st1) =
            db_MarkChanFullyClosed b (chanPoint breachInfo)
              (called (Call_MarkChanFullyClosed (chanPoint breachInfo)) st);
          st2 = called (Call_Remove (chanPoint breachInfo)) st1;
          (err', db') = retributionStore_Remove (store_codec b) (chanPoint breachInfo) (db st2);
          st3 = called Call_close_doneChan (st2\<lparr>db := db'\<rparr>)
      in case close_chan (doneChan breachInfo) of
           Inl p \<Rightarrow> (Panicked p, breachInfo, st3)
         | Inr ch \<Rightarrow> (Returned, breachInfo\<lparr>doneChan := ch\<rparr>, st3))"

text \<open>
  \<^verbatim>\<open>exactRetribution\<close>, for the event \<open>confChan\<close> of the breach transaction. The
  retribution is behind a pointer, so the one the executor leaves is returned.
\<close>

definition exactRetribution ::
  "('pk, 'sd) breachArbiter \<Rightarrow> recv \<Rightarrow> ('pk, 'sd) retributionInfo \<Rightarrow> node \<Rightarrow>
     exit \<times> ('pk, 'sd) retributionInfo \<times> node" where
  "exactRetribution b confChan breachInfo st =
     (case confChan of
        ChannelClosed \<Rightarrow> (Returned, breachInfo, st)
      | Quit \<Rightarrow> (Returned, breachInfo, st)
      | Never \<Rightarrow> (Blocked, breachInfo, st)
      | Confirmed \<Rightarrow>
     (case createJusticeTx (wallet b) breachInfo of
        (Inl e, breachInfo1) \<Rightarrow> (Returned, breachInfo1, called Call_createJusticeTx st)
      | (Inr justiceTx, breachInfo1) \<Rightarrow>
          let st1 = called Call_GetBestBlock (called Call_createJusticeTx st) in
     (case GetBestBlock b of
        Inl e \<Rightarrow> (Returned, breachInfo1, st1)
      | Inr (hash, currentHeight) \<Rightarrow>
          let st2 = called (Call_PublishTransaction justiceTx) st1 in
     (case PublishTransaction b justiceTx of
        Some e \<Rightarrow> (Returned, breachInfo1, st2)
      | None \<Rightarrow>
          let st3 = st2\<lparr>published := published st2 @ [justiceTx]\<rparr>;
              justiceTXID = TxHash b justiceTx;
              st4 = called (Call_RegisterConfirmationsNtfn justiceTXID) st3
          in
     (case RegisterConfirmationsNtfn b justiceTXID 1 currentHeight of
        Inl e \<Rightarrow> (Returned, breachInfo1, st4)
      | Inr confChan' \<Rightarrow>
     (case confChan' of
        ChannelClosed \<Rightarrow> (Returned, breachInfo1, st4)
      | Quit \<Rightarrow> (Returned, breachInfo1, st4)
      | Never \<Rightarrow> (Blocked, breachInfo1, st4)
      | Confirmed \<Rightarrow> finalize b breachInfo1 st4))))))"

text \<open>
  Order in a list of calls: \<open>precedes a b cs\<close> holds when \<open>b\<close> does not occur in \<open>cs\<close>
  or \<open>a\<close> occurs before the first \<open>b\<close>.
\<close>

fun precedes :: "'a \<Rightarrow> 'a \<Rightarrow> 'a list \<Rightarrow> bool" where
  "precedes a b [] = True"
| "precedes a b (c # cs) = (if c = b then False else if c = a then True else precedes a b cs)"

text \<open>
  The callback that \<^verbatim>\<open>breachObserver\<close> hands to \<^verbatim>\<open>waitForChanToClose\<close> after a
  unilateral close, run once the closing transaction has confirmed: it sweeps our output
  when there is one, and marks the channel point \<open>cp\<close> fully closed in either case
  (\<^verbatim>\<open>goto close\<close> on a failed sweep).
\<close>

definition unilateralCloseCallback ::
  "('pk, 'sd) breachArbiter \<Rightarrow> 'pk UnilateralCloseSummary \<Rightarrow> wire_OutPoint \<Rightarrow> node \<Rightarrow> node" where
  "unilateralCloseCallback b closeInfo cp st =
     (let st1 =
            (case SelfOutPoint closeInfo of
               None \<Rightarrow> st
             | Some selfOutPoint \<Rightarrow>
                (case craftCommitSweepTx (wallet b) closeInfo of
                   Inl e \<Rightarrow> st
                 | Inr sweepTx \<Rightarrow>
                     let st' = called (Call_PublishTransaction sweepTx) st in
                    (case PublishTransaction b sweepTx of
                       Some e \<Rightarrow> st'
                     | None \<Rightarrow> st'\<lparr>published := published st' @ [sweepTx]\<rparr>)));
          (err, st2) =
            db_MarkChanFullyClosed b cp (called (Call_MarkChanFullyClosed cp) st1)
      in st2)"

section \<open>Concrete collaborators\<close>

text \<open>
  Modelled from the spec: the witness types of \<^verbatim>\<open>lnwallet\<close> are not in the file. The
  spec names \<^verbatim>\<open>CommitmentNoDelay\<close> for the local output and
  \<^verbatim>\<open>CommitmentRevoke\<close> for the revoked one; with \<^verbatim>\<open>CommitmentTimeLock\<close> they
  are the three variants the wallet declares, numbered from 0.
\<close>

definition CommitmentTimeLock :: "16 word" where
  "CommitmentTimeLock = 0"

definition CommitmentNoDelay :: "16 word" where
  "CommitmentNoDelay = 1"

definition CommitmentRevoke :: "16 word" where
  "CommitmentRevoke = 2"

definition known_witnessType :: "16 word \<Rightarrow> bool" where
  "known_witnessType wt =
     (wt = CommitmentTimeLock \<or> wt = CommitmentNoDelay \<or> wt = CommitmentRevoke)"

text \<open>
  A simple instance of the serialisation functions, to run the model on concrete
  records: an outpoint is its hash followed by the index as a big-endian
  \<^verbatim>\<open>uint32\<close>; a sign descriptor is an opaque string of bytes behind its length; a
  public key is its compressed form of 33 bytes, which begins with 2 or 3.
\<close>

definition PutUint32_BE :: "32 word \<Rightarrow> bytes" where
  "PutUint32_BE v =
     [ucast (drop_bit 24 v), ucast (drop_bit 16 v), ucast (drop_bit 8 v), ucast v]"

definition Uint32_BE :: "bytes \<Rightarrow> 32 word" where
  "Uint32_BE b =
     ucast (b ! 3) OR push_bit 8 (ucast (b ! 2)) OR push_bit 16 (ucast (b ! 1)) OR
     push_bit 24 (ucast (b ! 0))"

definition simple_writeOutpoint :: "wire_OutPoint \<Rightarrow> error + bytes" where
  "simple_writeOutpoint op = Inr (Hash op @ PutUint32_BE (Index op))"

definition simple_readOutpoint ::
  "bytes \<Rightarrow> wire_OutPoint \<Rightarrow> error + (wire_OutPoint \<times> bytes)" where
  "simple_readOutpoint r op =
     (case ReadFull r 32 of Inl e \<Rightarrow> Inl e
      | Inr (h, r1) \<Rightarrow>
     (case ReadFull r1 4 of Inl e \<Rightarrow> Inl e
      | Inr (i, r2) \<Rightarrow> Inr (op\<lparr>Hash := h, Index := Uint32_BE i\<rparr>, r2)))"

definition simple_WriteSignDescriptor :: "bytes \<Rightarrow> error + bytes" where
  "simple_WriteSignDescriptor sd = Inr (WriteVarInt (of_nat (length sd)) @ sd)"

definition simple_ReadSignDescriptor :: "bytes \<Rightarrow> bytes \<Rightarrow> error + (bytes \<times> bytes)" where
  "simple_ReadSignDescriptor r sd =
     (case ReadVarInt r of Inl e \<Rightarrow> Inl e
      | Inr (n, r1) \<Rightarrow> ReadFull r1 (unat n))"

definition simple_ParsePubKey :: "bytes \<Rightarrow> error + bytes" where
  "simple_ParsePubKey b =
     (if length b = 33 \<and> (b ! 0 = 2 \<or> b ! 0 = 3) then Inr b
      else Inl (ErrCollaborator ''invalid pubkey''))"

definition simple_codec :: "(bytes, bytes) codec" where
  "simple_codec =
     \<lparr>writeOutpoint = simple_writeOutpoint, readOutpoint = simple_readOutpoint,
      WriteSignDescriptor = simple_WriteSignDescriptor,
      ReadSignDescriptor = simple_ReadSignDescriptor,
      SerializeCompressed = (\<lambda>pk. pk), ParsePubKey = simple_ParsePubKey,
      zeroSignDescriptor = [], zeroPublicKey = []\<rparr>"

text \<open>
  A wallet whose signer always answers: the script it hands out is \<open>script\<close>, a witness
  is the one-element stack holding the input index, a raw signature is empty.
\<close>

definition simple_wallet :: "bytes \<Rightarrow> (bytes, bytes) wallet" where
  "simple_wallet script =
     \<lparr>newSweepPkScript = Inr script,
      GenWitnessFunc = (\<lambda>wt sd tx hc i. Inr [[of_int i]]),
      NewTxSigHashes =
        (\<lambda>tx. \<lparr>HashPrevOuts = replicate 32 0, HashSequence = replicate 32 0,
               HashOutputs = replicate 32 0\<rparr>),
      SignOutputRaw = (\<lambda>tx sd. Inr []),
      TweakPubKeyWithTweak = (\<lambda>pk tweak. pk),
      keySerializeCompressed = (\<lambda>pk. pk)\<rparr>"

text \<open>
  A wallet whose signer refuses an input index that the transaction does not have, and
  answers as the simple one otherwise.
\<close>

definition checking_wallet :: "bytes \<Rightarrow> (bytes, bytes) wallet" where
  "checking_wallet script =
     (simple_wallet script)
       \<lparr>GenWitnessFunc :=
          (\<lambda>wt sd tx hc i.
             if 0 \<le> i \<and> i < int (length (TxIn tx)) then Inr [[of_int i]]
             else Inl (ErrCollaborator ''input index out of range''))\<rparr>"

text \<open>
  An arbiter over these collaborators: the chain is at height 100, the wallet publishes
  whatever it is given, the notifier registers every request, the event for the justice
  transaction yields \<open>justiceConf\<close>, and the channel database answers \<open>markErr\<close>.
\<close>

definition simple_arbiter :: "recv \<Rightarrow> error option \<Rightarrow> (bytes, bytes) breachArbiter" where
  "simple_arbiter justiceConf markErr =
     \<lparr>wallet = simple_wallet [0x51], store_codec = simple_codec,
      GetBestBlock = Inr (replicate 32 0, 100),
      PublishTransaction = (\<lambda>tx. None),
      TxHash = (\<lambda>tx. replicate 32 0xaa),
      RegisterConfirmationsNtfn = (\<lambda>txid numConfs height. Inr justiceConf),
      MarkChanFullyClosed = (\<lambda>cp. markErr)\<rparr>"

definition fresh_node :: node where
  "fresh_node = \<lparr>db = Map.empty, fullyClosed = [], published = [], calls = []\<rparr>"

text \<open>Concrete records.\<close>

definition example_outpoint :: "byte \<Rightarrow> 32 word \<Rightarrow> wire_OutPoint" where
  "example_outpoint h i = \<lparr>Hash = replicate 32 h, Index = i\<rparr>"

definition example_output ::
  "64 word \<Rightarrow> 32 word \<Rightarrow> 16 word \<Rightarrow> bool \<Rightarrow> bytes breachedOutput" where
  "example_output a i wt two =
     \<lparr>amt = a, outpoint = example_outpoint 1 i, signDescriptor = [0xde, 0xad],
      witnessType = wt,
      witnessFunc = Some (\<lambda>tx hc i. Inl (ErrCollaborator ''stale generator'')),
      twoStageClaim = two\<rparr>"

definition example_retribution ::
  "64 word \<Rightarrow> 64 word \<Rightarrow> bytes breachedOutput list \<Rightarrow> (bytes, bytes) retributionInfo" where
  "example_retribution a b hs =
     \<lparr>commitHash = replicate 32 1, chanPoint = example_outpoint 9 0,
      remoteIdentity = 2 # replicate 32 7, capacity = a + b, settledBalance = a,
      selfOutput = example_output a 0 CommitmentNoDelay False,
      revokedOutput = example_output b 1 CommitmentRevoke False,
      htlcOutputs = hs, doneChan = OpenChan\<rparr>"

definition example_closeSummary :: "64 word \<Rightarrow> bytes UnilateralCloseSummary" where
  "example_closeSummary v =
     \<lparr>SelfOutPoint = Some (example_outpoint 3 0),
      SelfOutputSignDesc =
        \<lparr>PubKey = 2 # replicate 32 7, SingleTweak = [],
         Output = \<lparr>Value = v, PkScript = [0, 20]\<rparr>,
         SigHashes = None, InputIndex = 0\<rparr>\<rparr>"

section \<open>Properties of the encoding\<close>

subsection \<open>Integers and the variable length integer\<close>

lemma Uint64_BE_PutUint64_BE: "Uint64_BE (PutUint64_BE v) = v"
proof (rule bit_word_eqI)
  fix n :: nat
  assume "n < LENGTH(64)"
  then consider "n < 8" | "8 \<le> n \<and> n < 16" | "16 \<le> n \<and> n < 24" | "24 \<le> n \<and> n < 32"
    | "32 \<le> n \<and> n < 40" | "40 \<le> n \<and> n < 48" | "48 \<le> n \<and> n < 56" | "56 \<le> n \<and> n < 64"
    by simp linarith
  then show "bit (Uint64_BE (PutUint64_BE v)) n = bit v n"
    apply cases
    apply (simp_all add: PutUint64_BE_def Uint64_BE_def bit_simps)
    apply auto
    done
qed

lemma Uint64_LE_PutUint64_LE: "Uint64_LE (PutUint64_LE v) = v"
proof (rule bit_word_eqI)
  fix n :: nat
  assume "n < LENGTH(64)"
  then consider "n < 8" | "8 \<le> n \<and> n < 16" | "16 \<le> n \<and> n < 24" | "24 \<le> n \<and> n < 32"
    | "32 \<le> n \<and> n < 40" | "40 \<le> n \<and> n < 48" | "48 \<le> n \<and> n < 56" | "56 \<le> n \<and> n < 64"
    by simp linarith
  then show "bit (Uint64_LE (PutUint64_LE v)) n = bit v n"
    apply cases
    apply (simp_all add: PutUint64_LE_def Uint64_LE_def bit_simps)
    apply auto
    done
qed

lemma Uint32_LE_PutUint32_LE: "Uint32_LE (PutUint32_LE v) = v"
proof (rule bit_word_eqI)
  fix n :: nat
  assume "n < LENGTH(32)"
  then consider "n < 8" | "8 \<le> n \<and> n < 16" | "16 \<le> n \<and> n < 24" | "24 \<le> n \<and> n < 32"
    by simp linarith
  then show "bit (Uint32_LE (PutUint32_LE v)) n = bit v n"
    apply cases
    apply (simp_all add: PutUint32_LE_def Uint32_LE_def bit_simps)
    apply auto
    done
qed

lemma Uint32_BE_PutUint32_BE: "Uint32_BE (PutUint32_BE v) = v"
proof (rule bit_word_eqI)
  fix n :: nat
  assume "n < LENGTH(32)"
  then consider "n < 8" | "8 \<le> n \<and> n < 16" | "16 \<le> n \<and> n < 24" | "24 \<le> n \<and> n < 32"
    by simp linarith
  then show "bit (Uint32_BE (PutUint32_BE v)) n = bit v n"
    apply cases
    apply (simp_all add: PutUint32_BE_def Uint32_BE_def bit_simps)
    apply auto
    done
qed

lemma Uint16_LE_PutUint16_LE: "Uint16_LE (PutUint16_LE v) = v"
  unfolding PutUint16_LE_def Uint16_LE_def
  by (rule bit_word_eqI) (auto simp add: bit_simps)

lemma Uint16_BE_PutUint16_BE: "Uint16_BE (PutUint16_BE v) = v"
  unfolding PutUint16_BE_def Uint16_BE_def
  by (rule bit_word_eqI) (auto simp add: bit_simps)

lemma ReadFull_append: "length a = n \<Longrightarrow> ReadFull (a @ rest) n = Inr (a, rest)"
  by (simp add: ReadFull_def)

lemma ReadFull_Cons: "ReadFull (x # rest) (Suc 0) = Inr ([x], rest)"
  by (simp add: ReadFull_def)

lemma length_PutUint:
  "length (PutUint64_BE v) = 8" "length (PutUint16_BE w) = 2" "length (PutUint32_BE u) = 4"
  "length (PutUint64_LE v) = 8" "length (PutUint32_LE u) = 4" "length (PutUint16_LE w) = 2"
  by (simp_all add: PutUint64_BE_def PutUint16_BE_def PutUint32_BE_def PutUint64_LE_def
      PutUint32_LE_def PutUint16_LE_def)

lemma ucast_16_64: "(v :: 64 word) \<le> 0xffff \<Longrightarrow> (ucast (ucast v :: 16 word) :: 64 word) = v"
  by (simp add: word_unat_eq_iff unsigned_ucast_eq unsigned_take_bit_eq word_le_nat_alt take_bit_nat_eq_self)

lemma ucast_32_64: "(v :: 64 word) \<le> 0xffffffff \<Longrightarrow> (ucast (ucast v :: 32 word) :: 64 word) = v"
  by (simp add: word_unat_eq_iff unsigned_ucast_eq unsigned_take_bit_eq word_le_nat_alt take_bit_nat_eq_self)

lemma ucast_8_64: "(v :: 64 word) < 0xfd \<Longrightarrow> (ucast (ucast v :: 8 word) :: 64 word) = v"
  by (simp add: word_unat_eq_iff unsigned_ucast_eq unsigned_take_bit_eq word_less_nat_alt take_bit_nat_eq_self)

lemma ucast_8_lt: "(v :: 64 word) < 0xfd \<Longrightarrow> (ucast v :: 8 word) < 0xfd"
  by (simp add: unsigned_ucast_eq unsigned_take_bit_eq word_less_nat_alt take_bit_nat_eq_self)

lemma ReadVarInt_WriteVarInt: "ReadVarInt (WriteVarInt v @ rest) = Inr (v, rest)"
proof -
  consider "v < 0xfd" | "\<not> v < 0xfd" "v \<le> 0xffff" | "\<not> v \<le> 0xffff" "v \<le> 0xffffffff"
    | "\<not> v \<le> 0xffffffff"
    by linarith
  then show ?thesis
  proof cases
    case 1
    from ucast_8_lt [OF 1] have "(ucast v :: byte) \<noteq> 0xff" "(ucast v :: byte) \<noteq> 0xfe"
      "(ucast v :: byte) \<noteq> 0xfd" by auto
    with 1 show ?thesis
      by (simp add: WriteVarInt_def ReadVarInt_def ReadFull_Cons ucast_8_64)
  next
    case 2
    have "ReadFull (PutUint16_LE (ucast v) @ rest) 2 = Inr (PutUint16_LE (ucast v), rest)"
      by (rule ReadFull_append) (simp add: length_PutUint)
    with 2 show ?thesis
      by (simp add: WriteVarInt_def ReadVarInt_def ReadFull_Cons Uint16_LE_PutUint16_LE ucast_16_64)
  next
    case 3
    have "ReadFull (PutUint32_LE (ucast v) @ rest) 4 = Inr (PutUint32_LE (ucast v), rest)"
      by (rule ReadFull_append) (simp add: length_PutUint)
    moreover from 3 have "\<not> v < 0x10000" "\<not> v < 0xfd"
      by (simp_all add: word_le_nat_alt word_less_nat_alt)
    ultimately show ?thesis using 3
      by (simp add: WriteVarInt_def ReadVarInt_def ReadFull_Cons Uint32_LE_PutUint32_LE ucast_32_64)
  next
    case 4
    have "ReadFull (PutUint64_LE v @ rest) 8 = Inr (PutUint64_LE v, rest)"
      by (rule ReadFull_append) (simp add: length_PutUint)
    moreover from 4 have "\<not> v < 0x100000000" "\<not> v \<le> 0xffff" "\<not> v < 0xfd"
      by (simp_all add: word_le_nat_alt word_less_nat_alt)
    ultimately show ?thesis using 4
      by (simp add: WriteVarInt_def ReadVarInt_def ReadFull_Cons Uint64_LE_PutUint64_LE)
  qed
qed

subsection \<open>Decoding what was encoded\<close>

lemma breachedOutput_roundtrip:
  assumes "breachedOutput_wf c bo"
  shows "\<exists>w. breachedOutput_Encode c bo = Inr w \<and>
           (\<forall>rest. breachedOutput_Decode c (zero_breachedOutput c) (w @ rest) =
                     Inr (persisted_breachedOutput bo, rest))"
proof -
  from assms obtain w2 where w2: "writeOutpoint c (outpoint bo) = Inr w2"
    and r2: "\<And>rest. readOutpoint c (w2 @ rest) zero_OutPoint = Inr (outpoint bo, rest)"
    by (auto simp: breachedOutput_wf_def outpoint_roundtrip_def)
  from assms obtain w3 where w3: "WriteSignDescriptor c (signDescriptor bo) = Inr w3"
    and r3: "\<And>rest. ReadSignDescriptor c (w3 @ rest) (zeroSignDescriptor c) =
                Inr (signDescriptor bo, rest)"
    by (auto simp: breachedOutput_wf_def signDescriptor_roundtrip_def)
  define w5 :: bytes where "w5 = (if twoStageClaim bo then [1] else [0])"
  define w where "w = PutUint64_BE (amt bo) @ w2 @ w3 @ PutUint16_BE (witnessType bo) @ w5"
  have enc: "breachedOutput_Encode c bo = Inr w"
    by (simp add: breachedOutput_Encode_def w2 w3 w_def w5_def)
  have dec: "breachedOutput_Decode c (zero_breachedOutput c) (w @ rest) =
               Inr (persisted_breachedOutput bo, rest)" for rest
  proof -
    have a: "ReadFull (w @ rest) 8 =
               Inr (PutUint64_BE (amt bo), w2 @ w3 @ PutUint16_BE (witnessType bo) @ w5 @ rest)"
      unfolding w_def append_assoc by (rule ReadFull_append) (simp add: length_PutUint)
    have b: "ReadFull (PutUint16_BE (witnessType bo) @ w5 @ rest) 2 =
               Inr (PutUint16_BE (witnessType bo), w5 @ rest)"
      by (rule ReadFull_append) (simp add: length_PutUint)
    have d: "ReadFull (w5 @ rest) (Suc 0) = Inr (w5, rest)"
      by (rule ReadFull_append) (simp add: w5_def)
    have z: "outpoint (zero_breachedOutput c) = zero_OutPoint"
      "signDescriptor (zero_breachedOutput c) = zeroSignDescriptor c"
      by (simp_all add: zero_breachedOutput_def)
    have e: "(w5 ! 0 = 1) = twoStageClaim bo"
      by (simp add: w5_def)
    have "breachedOutput_Decode c (zero_breachedOutput c) (w @ rest) =
            Inr ((zero_breachedOutput c)\<lparr>amt := amt bo, outpoint := outpoint bo,
                   signDescriptor := signDescriptor bo, witnessType := witnessType bo,
                   twoStageClaim := twoStageClaim bo\<rparr>, rest)"
      by (simp add: breachedOutput_Decode_def a z r2 r3 b d e Uint64_BE_PutUint64_BE
          Uint16_BE_PutUint16_BE)
    also have "(zero_breachedOutput c)\<lparr>amt := amt bo, outpoint := outpoint bo,
                   signDescriptor := signDescriptor bo, witnessType := witnessType bo,
                   twoStageClaim := twoStageClaim bo\<rparr> = persisted_breachedOutput bo"
      by (simp add: persisted_breachedOutput_def zero_breachedOutput_def)
    finally show ?thesis .
  qed
  from enc dec show ?thesis by blast
qed

lemma htlcOutputs_roundtrip:
  assumes "list_all (breachedOutput_wf c) bos"
  shows "\<exists>w. encode_htlcOutputs c bos = Inr w \<and>
           (\<forall>rest. decode_htlcOutputs c (length bos) (w @ rest) =
                     Inr (map persisted_breachedOutput bos, rest))"
  using assms
proof (induction bos)
  case Nil
  then show ?case by simp
next
  case (Cons bo bos)
  from Cons.prems have "breachedOutput_wf c bo" by simp
  from breachedOutput_roundtrip [OF this] obtain w1 where
    e1: "breachedOutput_Encode c bo = Inr w1" and
    d1: "\<And>rest. breachedOutput_Decode c (zero_breachedOutput c) (w1 @ rest) =
            Inr (persisted_breachedOutput bo, rest)"
    by blast
  from Cons obtain w2 where
    e2: "encode_htlcOutputs c bos = Inr w2" and
    d2: "\<And>rest. decode_htlcOutputs c (length bos) (w2 @ rest) =
            Inr (map persisted_breachedOutput bos, rest)"
    by auto
  have "encode_htlcOutputs c (bo # bos) = Inr (w1 @ w2)"
    by (simp add: e1 e2)
  moreover have "decode_htlcOutputs c (length (bo # bos)) ((w1 @ w2) @ rest) =
      Inr (map persisted_breachedOutput (bo # bos), rest)" for rest
    by (simp add: d1 d2)
  ultimately show ?case by blast
qed

lemma slice_len:
  assumes "n < 2 ^ 63"
  shows "unat (of_nat n :: 64 word) = n" and "\<not> sint (of_nat n :: 64 word) < 0"
proof -
  from assms have "n < 2 ^ 64" by simp
  then show "unat (of_nat n :: 64 word) = n"
    by (simp add: unat_of_nat take_bit_nat_eq_self)
  from assms have "int n < 2 ^ 63" by (metis of_nat_less_numeral_power_cancel_iff)
  then have "sint (of_nat n :: 64 word) = int n"
    by (simp add: signed_of_nat signed_take_bit_int_eq_self)
  then show "\<not> sint (of_nat n :: 64 word) < 0" by simp
qed

lemma retributionInfo_roundtrip:
  assumes "retributionInfo_wf c ret"
  shows "\<exists>w. retributionInfo_Encode c ret = Inr w \<and>
           (\<forall>rest. retributionInfo_Decode c (zero_retributionInfo c) (w @ rest) =
                     Inr (persisted_retributionInfo ret, rest))"
proof -
  from assms have len: "length (commitHash ret) = 32"
    and pk: "length (SerializeCompressed c (remoteIdentity ret)) = 33"
      "ParsePubKey c (SerializeCompressed c (remoteIdentity ret)) = Inr (remoteIdentity ret)"
    and m: "8 * length (htlcOutputs ret) \<le> maxAlloc"
    by (simp_all add: retributionInfo_wf_def pubKey_roundtrip_def)
  from m have n: "length (htlcOutputs ret) < 2 ^ 63"
    by (simp add: maxAlloc_def)
  from m have m': "\<not> maxAlloc < 8 * length (htlcOutputs ret)"
    by simp
  from assms obtain w2 where w2: "writeOutpoint c (chanPoint ret) = Inr w2"
    and r2: "\<And>rest. readOutpoint c (w2 @ rest) zero_OutPoint = Inr (chanPoint ret, rest)"
    by (auto simp: retributionInfo_wf_def outpoint_roundtrip_def)
  from assms have "breachedOutput_wf c (selfOutput ret)"
    by (simp add: retributionInfo_wf_def)
  from breachedOutput_roundtrip [OF this] obtain w6 where
    w6: "breachedOutput_Encode c (selfOutput ret) = Inr w6" and
    r6: "\<And>rest. breachedOutput_Decode c (zero_breachedOutput c) (w6 @ rest) =
            Inr (persisted_breachedOutput (selfOutput ret), rest)"
    by blast
  from assms have "breachedOutput_wf c (revokedOutput ret)"
    by (simp add: retributionInfo_wf_def)
  from breachedOutput_roundtrip [OF this] obtain w7 where
    w7: "breachedOutput_Encode c (revokedOutput ret) = Inr w7" and
    r7: "\<And>rest. breachedOutput_Decode c (zero_breachedOutput c) (w7 @ rest) =
            Inr (persisted_breachedOutput (revokedOutput ret), rest)"
    by blast
  from assms have "list_all (breachedOutput_wf c) (htlcOutputs ret)"
    by (simp add: retributionInfo_wf_def)
  from htlcOutputs_roundtrip [OF this] obtain w9 where
    w9: "encode_htlcOutputs c (htlcOutputs ret) = Inr w9" and
    r9: "\<And>rest. decode_htlcOutputs c (length (htlcOutputs ret)) (w9 @ rest) =
            Inr (map persisted_breachedOutput (htlcOutputs ret), rest)"
    by blast
  define w3 where "w3 = SerializeCompressed c (remoteIdentity ret)"
  define w4 where "w4 = PutUint64_BE (capacity ret)"
  define w5 where "w5 = PutUint64_BE (settledBalance ret)"
  define w8 where "w8 = WriteVarInt (of_nat (length (htlcOutputs ret)))"
  define w where "w = commitHash ret @ w2 @ w3 @ w4 @ w5 @ w6 @ w7 @ w8 @ w9"
  have enc: "retributionInfo_Encode c ret = Inr w"
    by (simp add: retributionInfo_Encode_def w2 w6 w7 w9 w_def w3_def w4_def w5_def w8_def)
  have dec: "retributionInfo_Decode c (zero_retributionInfo c) (w @ rest) =
               Inr (persisted_retributionInfo ret, rest)" for rest
  proof -
    have a1: "ReadFull (w @ rest) 32 =
                Inr (commitHash ret, w2 @ w3 @ w4 @ w5 @ w6 @ w7 @ w8 @ w9 @ rest)"
      unfolding w_def append_assoc by (rule ReadFull_append) (rule len)
    have a2: "NewHash (commitHash ret) = Inr (commitHash ret)"
      by (simp add: NewHash_def len)
    have a3: "ReadFull (w3 @ w4 @ w5 @ w6 @ w7 @ w8 @ w9 @ rest) 33 =
                Inr (w3, w4 @ w5 @ w6 @ w7 @ w8 @ w9 @ rest)"
      by (rule ReadFull_append) (simp add: w3_def pk)
    have a4: "ReadFull (w4 @ w5 @ w6 @ w7 @ w8 @ w9 @ rest) 8 =
                Inr (w4, w5 @ w6 @ w7 @ w8 @ w9 @ rest)"
      by (rule ReadFull_append) (simp add: w4_def length_PutUint)
    have a5: "ReadFull (w5 @ w6 @ w7 @ w8 @ w9 @ rest) 8 = Inr (w5, w6 @ w7 @ w8 @ w9 @ rest)"
      by (rule ReadFull_append) (simp add: w5_def length_PutUint)
    have a8: "ReadVarInt (w8 @ w9 @ rest) = Inr (of_nat (length (htlcOutputs ret)), w9 @ rest)"
      unfolding w8_def by (rule ReadVarInt_WriteVarInt)
    have z: "chanPoint (zero_retributionInfo c) = zero_OutPoint"
      by (simp add: zero_retributionInfo_def)
    have p: "ParsePubKey c w3 = Inr (remoteIdentity ret)"
      by (simp add: w3_def pk)
    have u: "Uint64_BE w4 = capacity ret" "Uint64_BE w5 = settledBalance ret"
      by (simp_all add: w4_def w5_def Uint64_BE_PutUint64_BE)
    have "retributionInfo_Decode c (zero_retributionInfo c) (w @ rest) =
            Inr ((zero_retributionInfo c)\<lparr>commitHash := commitHash ret,
                   chanPoint := chanPoint ret, remoteIdentity := remoteIdentity ret,
                   capacity := capacity ret, settledBalance := settledBalance ret,
                   selfOutput := persisted_breachedOutput (selfOutput ret),
                   revokedOutput := persisted_breachedOutput (revokedOutput ret),
                   htlcOutputs := map persisted_breachedOutput (htlcOutputs ret)\<rparr>, rest)"
      by (simp add: retributionInfo_Decode_def a1 a2 z r2 a3 p a4 a5 u r6 r7 a8
          slice_len [OF n] m' r9)
    also have "(zero_retributionInfo c)\<lparr>commitHash := commitHash ret,
                   chanPoint := chanPoint ret, remoteIdentity := remoteIdentity ret,
                   capacity := capacity ret, settledBalance := settledBalance ret,
                   selfOutput := persisted_breachedOutput (selfOutput ret),
                   revokedOutput := persisted_breachedOutput (revokedOutput ret),
                   htlcOutputs := map persisted_breachedOutput (htlcOutputs ret)\<rparr> =
               persisted_retributionInfo ret"
      by (simp add: persisted_retributionInfo_def zero_retributionInfo_def)
    finally show ?thesis .
  qed
  from enc dec show ?thesis by blast
qed

subsection \<open>The concrete collaborators are well-formed\<close>

lemma simple_outpoint_roundtrip:
  assumes "length (Hash op) = 32"
  shows "outpoint_roundtrip simple_codec op"
proof -
  have "simple_readOutpoint ((Hash op @ PutUint32_BE (Index op)) @ rest) zero_OutPoint =
          Inr (op, rest)" for rest
  proof -
    have a: "ReadFull (Hash op @ PutUint32_BE (Index op) @ rest) 32 =
               Inr (Hash op, PutUint32_BE (Index op) @ rest)"
      by (rule ReadFull_append) (rule assms)
    have b: "ReadFull (PutUint32_BE (Index op) @ rest) 4 = Inr (PutUint32_BE (Index op), rest)"
      by (rule ReadFull_append) (simp add: length_PutUint)
    show ?thesis
      by (simp add: simple_readOutpoint_def a b Uint32_BE_PutUint32_BE zero_OutPoint_def)
  qed
  then show ?thesis
    by (simp add: outpoint_roundtrip_def simple_codec_def simple_writeOutpoint_def)
qed

lemma simple_signDescriptor_roundtrip:
  assumes "length sd < 2 ^ 64"
  shows "signDescriptor_roundtrip simple_codec sd"
proof -
  from assms have u: "unat (of_nat (length sd) :: 64 word) = length sd"
    by (simp add: unat_of_nat take_bit_nat_eq_self)
  have "simple_ReadSignDescriptor ((WriteVarInt (of_nat (length sd)) @ sd) @ rest) [] =
          Inr (sd, rest)" for rest
    by (simp add: simple_ReadSignDescriptor_def ReadVarInt_WriteVarInt u ReadFull_append)
  then show ?thesis
    by (simp add: signDescriptor_roundtrip_def simple_codec_def simple_WriteSignDescriptor_def)
qed

lemma simple_pubKey_roundtrip:
  assumes "length pk = 33" and "pk ! 0 = 2 \<or> pk ! 0 = 3"
  shows "pubKey_roundtrip simple_codec pk"
  using assms by (simp add: pubKey_roundtrip_def simple_codec_def simple_ParsePubKey_def)

lemma example_output_wf: "breachedOutput_wf simple_codec (example_output a i wt two)"
  by (simp add: breachedOutput_wf_def example_output_def example_outpoint_def
      simple_outpoint_roundtrip simple_signDescriptor_roundtrip)

lemma example_retribution_wf:
  assumes "8 * length hs \<le> maxAlloc" and "list_all (breachedOutput_wf simple_codec) hs"
  shows "retributionInfo_wf simple_codec (example_retribution a b hs)"
  using assms
  by (simp add: retributionInfo_wf_def example_retribution_def example_outpoint_def
      example_output_wf simple_outpoint_roundtrip simple_pubKey_roundtrip)

text \<open>
  Claim C1. For every retribution whose remote identity is a valid compressed public key
  (its compressed form has 33 bytes and parses back to it), whose outpoints and sign
  descriptors are written and read back by the wallet's functions, and with any number of
  HTLC outputs that a slice can hold, \<^verbatim>\<open>Encode\<close> succeeds, and \<^verbatim>\<open>Decode\<close> of the bytes it wrote
  into a fresh record returns the retribution with every persisted field as it was
  (\<open>commitHash\<close>, \<open>chanPoint\<close>, \<open>remoteIdentity\<close>, \<open>capacity\<close>, \<open>settledBalance\<close>,
  \<open>selfOutput\<close>, \<open>revokedOutput\<close>, \<open>htlcOutputs\<close>) and the transient fields
  \<open>witnessFunc\<close> and \<open>doneChan\<close> nil, consuming exactly the bytes written. Likewise
  \<^verbatim>\<open>breachedOutput.Decode\<close> returns a breached output in \<open>amt\<close>, \<open>outpoint\<close>,
  \<open>signDescriptor\<close>, \<open>witnessType\<close> and \<open>twoStageClaim\<close>.
\<close>

theorem Decode_Encode_roundtrip:
  assumes "retributionInfo_wf c r" and "breachedOutput_wf c bo"
  shows "(\<exists>w. retributionInfo_Encode c r = Inr w \<and>
            (\<forall>rest. retributionInfo_Decode c (zero_retributionInfo c) (w @ rest) =
                      Inr (persisted_retributionInfo r, rest))) \<and>
         (\<exists>w. breachedOutput_Encode c bo = Inr w \<and>
            (\<forall>rest. breachedOutput_Decode c (zero_breachedOutput c) (w @ rest) =
                      Inr (persisted_breachedOutput bo, rest)))"
  using retributionInfo_roundtrip [OF assms(1)] breachedOutput_roundtrip [OF assms(2)]
  by (rule conjI)

text \<open>
  The theorem at a retribution with two HTLC outputs, stale witness generators and an
  open \<open>doneChan\<close>.
\<close>

theorem Decode_Encode_roundtrip_witness:
  "retributionInfo_wf simple_codec
     (example_retribution 7000 3000 [example_output 500 2 7 True, example_output 600 3 8 False]) \<and>
   breachedOutput_wf simple_codec (example_output 500 2 7 True) \<and>
   (\<exists>w. retributionInfo_Encode simple_codec
          (example_retribution 7000 3000
            [example_output 500 2 7 True, example_output 600 3 8 False]) = Inr w \<and>
        retributionInfo_Decode simple_codec (zero_retributionInfo simple_codec) w =
          Inr (persisted_retributionInfo
                (example_retribution 7000 3000
                  [example_output 500 2 7 True, example_output 600 3 8 False]), [])) \<and>
   (\<exists>w. breachedOutput_Encode simple_codec (example_output 500 2 7 True) = Inr w \<and>
        breachedOutput_Decode simple_codec (zero_breachedOutput simple_codec) w =
          Inr (persisted_breachedOutput (example_output 500 2 7 True), []))"
proof -
  let ?r = "example_retribution 7000 3000
              [example_output 500 2 7 True, example_output 600 3 8 False]"
  let ?bo = "example_output 500 2 7 True"
  have wf1: "retributionInfo_wf simple_codec ?r"
    by (rule example_retribution_wf) (simp_all add: example_output_wf maxAlloc_def)
  have wf2: "breachedOutput_wf simple_codec ?bo"
    by (rule example_output_wf)
  from Decode_Encode_roundtrip [OF wf1 wf2] obtain w1 w2 where
    "retributionInfo_Encode simple_codec ?r = Inr w1"
    "\<And>rest. retributionInfo_Decode simple_codec (zero_retributionInfo simple_codec) (w1 @ rest) =
        Inr (persisted_retributionInfo ?r, rest)"
    "breachedOutput_Encode simple_codec ?bo = Inr w2"
    "\<And>rest. breachedOutput_Decode simple_codec (zero_breachedOutput simple_codec) (w2 @ rest) =
        Inr (persisted_breachedOutput ?bo, rest)"
    by blast
  from this(1) this(2) [of "[]"] this(3) this(4) [of "[]"] wf1 wf2 show ?thesis
    by simp
qed

section \<open>The decoder and the witness type\<close>

lemma wf_witnessType_update:
  "breachedOutput_wf c (bo\<lparr>witnessType := wt\<rparr>) = breachedOutput_wf c bo"
  by (simp add: breachedOutput_wf_def)

lemma wf_selfOutput_witnessType_update:
  "retributionInfo_wf c (ret\<lparr>selfOutput := (selfOutput ret)\<lparr>witnessType := wt\<rparr>\<rparr>) =
     retributionInfo_wf c ret"
  by (simp add: retributionInfo_wf_def wf_witnessType_update)

text \<open>
  Claim C3, as amended. \<^verbatim>\<open>breachedOutput.Decode\<close>, and with it
  \<^verbatim>\<open>retributionInfo.Decode\<close>, does not check the witness type: for every 16-bit
  value \<open>wt\<close>, known or not, the bytes written for a well-formed output (a well-formed
  retribution) whose \<open>witnessType\<close> is \<open>wt\<close> are decoded without an error, and the
  decoded record carries \<open>wt\<close>.
\<close>

theorem Decode_accepts_any_witnessType:
  assumes "breachedOutput_wf c bo" and "retributionInfo_wf c ret"
  shows "(\<exists>w. breachedOutput_Encode c (bo\<lparr>witnessType := wt\<rparr>) = Inr w \<and>
            (\<forall>rest. \<exists>bo'. breachedOutput_Decode c (zero_breachedOutput c) (w @ rest) =
                              Inr (bo', rest) \<and> witnessType bo' = wt)) \<and>
         (\<exists>w. retributionInfo_Encode c
                 (ret\<lparr>selfOutput := (selfOutput ret)\<lparr>witnessType := wt\<rparr>\<rparr>) = Inr w \<and>
            (\<forall>rest. \<exists>ret'. retributionInfo_Decode c (zero_retributionInfo c) (w @ rest) =
                               Inr (ret', rest) \<and> witnessType (selfOutput ret') = wt))"
proof
  from assms(1) have "breachedOutput_wf c (bo\<lparr>witnessType := wt\<rparr>)"
    by (simp add: wf_witnessType_update)
  from breachedOutput_roundtrip [OF this]
  show "\<exists>w. breachedOutput_Encode c (bo\<lparr>witnessType := wt\<rparr>) = Inr w \<and>
            (\<forall>rest. \<exists>bo'. breachedOutput_Decode c (zero_breachedOutput c) (w @ rest) =
                              Inr (bo', rest) \<and> witnessType bo' = wt)"
    by (auto simp: persisted_breachedOutput_def)
next
  let ?r = "ret\<lparr>selfOutput := (selfOutput ret)\<lparr>witnessType := wt\<rparr>\<rparr>"
  from assms(2) have "retributionInfo_wf c ?r"
    by (simp add: wf_selfOutput_witnessType_update)
  from retributionInfo_roundtrip [OF this] obtain w where
    e: "retributionInfo_Encode c ?r = Inr w" and
    d: "\<And>rest. retributionInfo_Decode c (zero_retributionInfo c) (w @ rest) =
            Inr (persisted_retributionInfo ?r, rest)"
    by blast
  have "witnessType (selfOutput (persisted_retributionInfo ?r)) = wt"
    by (simp add: persisted_retributionInfo_def persisted_breachedOutput_def)
  with e d show "\<exists>w. retributionInfo_Encode c ?r = Inr w \<and>
            (\<forall>rest. \<exists>ret'. retributionInfo_Decode c (zero_retributionInfo c) (w @ rest) =
                               Inr (ret', rest) \<and> witnessType (selfOutput ret') = wt)"
    by blast
qed

text \<open>The theorem at the value \<^verbatim>\<open>0xffff\<close>, which is no witness type.\<close>

theorem Decode_accepts_any_witnessType_witness:
  "breachedOutput_wf simple_codec (example_output 7000 0 CommitmentNoDelay False) \<and>
   retributionInfo_wf simple_codec (example_retribution 7000 3000 []) \<and>
   \<not> known_witnessType 0xffff \<and>
   (\<exists>w bo'. breachedOutput_Encode simple_codec
             ((example_output 7000 0 CommitmentNoDelay False)\<lparr>witnessType := 0xffff\<rparr>) = Inr w \<and>
        breachedOutput_Decode simple_codec (zero_breachedOutput simple_codec) w = Inr (bo', []) \<and>
        witnessType bo' = 0xffff) \<and>
   (\<exists>w ret'. retributionInfo_Encode simple_codec
             ((example_retribution 7000 3000 [])
                \<lparr>selfOutput := (selfOutput (example_retribution 7000 3000 []))
                                 \<lparr>witnessType := 0xffff\<rparr>\<rparr>) = Inr w \<and>
        retributionInfo_Decode simple_codec (zero_retributionInfo simple_codec) w =
          Inr (ret', []) \<and>
        witnessType (selfOutput ret') = 0xffff)"
proof -
  have wf1: "breachedOutput_wf simple_codec (example_output 7000 0 CommitmentNoDelay False)"
    by (rule example_output_wf)
  have wf2: "retributionInfo_wf simple_codec (example_retribution 7000 3000 [])"
    by (rule example_retribution_wf) (simp_all add: maxAlloc_def)
  have k: "\<not> known_witnessType 0xffff"
    by (simp add: known_witnessType_def CommitmentTimeLock_def CommitmentNoDelay_def
        CommitmentRevoke_def)
  from Decode_accepts_any_witnessType [OF wf1 wf2, of "0xffff"] obtain w1 w2 where
    a: "breachedOutput_Encode simple_codec
         ((example_output 7000 0 CommitmentNoDelay False)\<lparr>witnessType := 0xffff\<rparr>) = Inr w1"
    and b: "\<And>rest. \<exists>bo'. breachedOutput_Decode simple_codec (zero_breachedOutput simple_codec)
                (w1 @ rest) = Inr (bo', rest) \<and> witnessType bo' = 0xffff"
    and c: "retributionInfo_Encode simple_codec
             ((example_retribution 7000 3000 [])
                \<lparr>selfOutput := (selfOutput (example_retribution 7000 3000 []))
                                 \<lparr>witnessType := 0xffff\<rparr>\<rparr>) = Inr w2"
    and d: "\<And>rest. \<exists>ret'. retributionInfo_Decode simple_codec (zero_retributionInfo simple_codec)
                (w2 @ rest) = Inr (ret', rest) \<and> witnessType (selfOutput ret') = 0xffff"
    by blast
  from b [of "[]"] d [of "[]"] a c wf1 wf2 k show ?thesis
    by auto
qed

lemma example_bytes:
  "breachedOutput_Encode simple_codec (example_output 7000 0 0xffff False) =
     Inr ([0, 0, 0, 0, 0, 0, 0x1b, 0x58] @ replicate 32 1 @ [0, 0, 0, 0] @ [2, 0xde, 0xad] @
          [0xff, 0xff] @ [0])"
  by (simp add: breachedOutput_Encode_def example_output_def example_outpoint_def
      simple_codec_def simple_writeOutpoint_def simple_WriteSignDescriptor_def
      PutUint64_BE_def PutUint32_BE_def PutUint16_BE_def WriteVarInt_def)

text \<open>
  Claim C3, as stated, fails: a stream of 50 bytes whose witness type field holds
  \<^verbatim>\<open>0xffff\<close> is decoded without an error, into an output with that witness type.
\<close>

theorem Decode_unknown_witnessType_counterexample:
  "breachedOutput_Decode simple_codec (zero_breachedOutput simple_codec)
     ([0, 0, 0, 0, 0, 0, 0x1b, 0x58] @ replicate 32 1 @ [0, 0, 0, 0] @ [2, 0xde, 0xad] @
      [0xff, 0xff] @ [0]) =
     Inr (\<lparr>amt = 7000, outpoint = \<lparr>Hash = replicate 32 1, Index = 0\<rparr>,
           signDescriptor = [0xde, 0xad], witnessType = 0xffff, witnessFunc = None,
           twoStageClaim = False\<rparr>, []) \<and>
   \<not> known_witnessType 0xffff"
proof -
  have "breachedOutput_wf simple_codec (example_output 7000 0 0xffff False)"
    by (rule example_output_wf)
  from breachedOutput_roundtrip [OF this] example_bytes
  have "breachedOutput_Decode simple_codec (zero_breachedOutput simple_codec)
     (([0, 0, 0, 0, 0, 0, 0x1b, 0x58] @ replicate 32 1 @ [0, 0, 0, 0] @ [2, 0xde, 0xad] @
      [0xff, 0xff] @ [0]) @ []) =
     Inr (persisted_breachedOutput (example_output 7000 0 0xffff False), [])"
    by (metis sum.inject(2))
  moreover have "persisted_breachedOutput (example_output 7000 0 0xffff False) =
      \<lparr>amt = 7000, outpoint = \<lparr>Hash = replicate 32 1, Index = 0\<rparr>,
           signDescriptor = [0xde, 0xad], witnessType = 0xffff, witnessFunc = None,
           twoStageClaim = False\<rparr>"
    by (simp add: persisted_breachedOutput_def example_output_def example_outpoint_def)
  moreover have "\<not> known_witnessType 0xffff"
    by (simp add: known_witnessType_def CommitmentTimeLock_def CommitmentNoDelay_def
        CommitmentRevoke_def)
  ultimately show ?thesis by simp
qed

section \<open>Properties of the retribution store\<close>

lemma set_insert_sorted: "set (insert_sorted k v b) = insert (k, v) (set b)"
  by (induction b) (auto split: if_splits)

lemma keys_insert_sorted: "set (map fst (insert_sorted k v b)) = insert k (set (map fst b))"
  by (simp add: set_insert_sorted)

lemma distinct_insert_sorted:
  "distinct (map fst b) \<Longrightarrow> k \<notin> set (map fst b) \<Longrightarrow> distinct (map fst (insert_sorted k v b))"
proof (induction b)
  case Nil
  then show ?case by simp
next
  case (Cons kv b)
  obtain k' v' where kv: "kv = (k', v')" by (cases kv)
  from Cons.prems have d: "distinct (map fst b)" and n: "k \<notin> set (map fst b)"
    and k': "k' \<notin> set (map fst b)" and ne: "k \<noteq> k'"
    by (auto simp: kv)
  from Cons.IH [OF d n] have "distinct (map fst (insert_sorted k v b))" .
  moreover from k' ne have "k' \<notin> set (map fst (insert_sorted k v b))"
    by (simp only: keys_insert_sorted) simp
  ultimately show ?case using Cons.prems by (simp add: kv)
qed

lemma Bucket_Put_result:
  assumes "Bucket_Put k v b = Inr b'" and "distinct (map fst b)"
  shows "distinct (map fst b')" and "set b' = insert (k, v) {kv \<in> set b. fst kv \<noteq> k}"
proof -
  show "distinct (map fst b')"
  proof (cases "k \<in> set (map fst b)")
    case True
    with assms(1) have "b' = map (\<lambda>(k', v'). if k' = k then (k', v) else (k', v')) b"
      by (simp add: Bucket_Put_def split: if_splits)
    then have "map fst b' = map fst b"
      by (auto simp: case_prod_beta)
    with assms(2) show ?thesis by simp
  next
    case False
    with assms(1) have "b' = insert_sorted k v b"
      by (simp add: Bucket_Put_def split: if_splits)
    with False assms(2) show ?thesis
      by (simp add: distinct_insert_sorted)
  qed
  show "set b' = insert (k, v) {kv \<in> set b. fst kv \<noteq> k}"
  proof (cases "k \<in> set (map fst b)")
    case True
    with assms(1) have b': "b' = map (\<lambda>(k', v'). if k' = k then (k', v) else (k', v')) b"
      by (simp add: Bucket_Put_def split: if_splits)
    from True show ?thesis
      unfolding b' by (auto simp: image_iff case_prod_beta)
  next
    case False
    with assms(1) have "b' = insert_sorted k v b"
      by (simp add: Bucket_Put_def split: if_splits)
    with False show ?thesis
      by (auto simp: set_insert_sorted)
  qed
qed


lemma retributionBucket_nonempty: "retributionBucket \<noteq> []"
  by (simp add: retributionBucket_def)

lemma Add_result:
  assumes "retributionStore_Add c ret s = (None, s')"
  shows "\<exists>k v b'. writeOutpoint c (chanPoint ret) = Inr k \<and>
           retributionInfo_Encode c ret = Inr v \<and>
           Bucket_Put k v (case s retributionBucket of None \<Rightarrow> [] | Some b \<Rightarrow> b) = Inr b' \<and>
           s' = s(retributionBucket \<mapsto> b')"
  using assms
  by (auto simp: retributionStore_Add_def db_Update_def CreateBucketIfNotExists_def Let_def
      split: option.splits sum.splits prod.splits if_splits)

lemma entry_of_Decode:
  assumes "entry_of c ret kv"
  shows "retributionInfo_Decode c (zero_retributionInfo c) (snd kv) =
           Inr (persisted_retributionInfo ret, [])"
proof -
  from assms have wf: "retributionInfo_wf c ret"
    and e: "retributionInfo_Encode c ret = Inr (snd kv)"
    by (simp_all add: entry_of_def)
  from retributionInfo_roundtrip [OF wf] e
  have "retributionInfo_Decode c (zero_retributionInfo c) (snd kv @ []) =
          Inr (persisted_retributionInfo ret, [])"
    by (metis sum.inject(2))
  then show ?thesis by simp
qed

lemma ForEach_collect:
  assumes "list_all (\<lambda>kv. \<exists>ret. entry_of c ret kv) b"
  shows "\<exists>rs. Bucket_ForEach (\<lambda>outBytes retBytes s'.
             case retributionInfo_Decode c (zero_retributionInfo c) retBytes of
               Inl e \<Rightarrow> (Some e, s')
             | Inr (ret, rest) \<Rightarrow> collect ret s') b seen = (None, seen @ rs) \<and>
           list_all2 (\<lambda>kv r. \<exists>ret. entry_of c ret kv \<and> r = persisted_retributionInfo ret) b rs"
  using assms
proof (induction b arbitrary: seen)
  case Nil
  then show ?case by simp
next
  case (Cons kv b)
  obtain k v where kv: "kv = (k, v)" by (cases kv)
  from Cons.prems obtain ret where ret: "entry_of c ret kv" by auto
  from entry_of_Decode [OF ret]
  have d: "retributionInfo_Decode c (zero_retributionInfo c) v =
             Inr (persisted_retributionInfo ret, [])"
    by (simp add: kv)
  from Cons.prems have "list_all (\<lambda>kv. \<exists>ret. entry_of c ret kv) b" by simp
  from Cons.IH [OF this, of "seen @ [persisted_retributionInfo ret]"] obtain rs where
    rs: "Bucket_ForEach (\<lambda>outBytes retBytes s'.
             case retributionInfo_Decode c (zero_retributionInfo c) retBytes of
               Inl e \<Rightarrow> (Some e, s')
             | Inr (ret, rest) \<Rightarrow> collect ret s') b (seen @ [persisted_retributionInfo ret]) =
           (None, (seen @ [persisted_retributionInfo ret]) @ rs)"
    and r2: "list_all2 (\<lambda>kv r. \<exists>ret. entry_of c ret kv \<and> r = persisted_retributionInfo ret) b rs"
    by blast
  have "Bucket_ForEach (\<lambda>outBytes retBytes s'.
             case retributionInfo_Decode c (zero_retributionInfo c) retBytes of
               Inl e \<Rightarrow> (Some e, s')
             | Inr (ret, rest) \<Rightarrow> collect ret s') (kv # b) seen =
          (None, seen @ (persisted_retributionInfo ret # rs))"
    by (simp add: kv d collect_def rs)
  moreover have "list_all2 (\<lambda>kv r. \<exists>ret. entry_of c ret kv \<and> r = persisted_retributionInfo ret)
                   (kv # b) (persisted_retributionInfo ret # rs)"
    using ret r2 by auto
  ultimately show ?case by blast
qed

lemma filter_unique_key:
  assumes "list_all2 R b rs" and "distinct (map fst b)" and "kv \<in> set b"
    and "\<And>kv' r. kv' \<in> set b \<Longrightarrow> R kv' r \<Longrightarrow> P r = (fst kv' = fst kv)"
    and "\<And>r. R kv r \<Longrightarrow> r = r0"
  shows "filter P rs = [r0]"
  using assms
proof (induction rule: list_all2_induct)
  case Nil
  then show ?case by simp
next
  case (Cons x xs r rs)
  note dist = Cons.prems(1) and mem = Cons.prems(2) and key = Cons.prems(3)
    and uniq = Cons.prems(4)
  show ?case
  proof (cases "x = kv")
    case True
    from Cons.hyps(1) True have "R kv r" by simp
    then have r: "r = r0" by (rule uniq)
    from key [of kv r] mem \<open>R kv r\<close> have p: "P r" by simp
    have "\<not> P r'" if "r' \<in> set rs" for r'
    proof -
      from that obtain i where i: "i < length rs" and ri: "rs ! i = r'"
        by (auto simp: in_set_conv_nth)
      from Cons.hyps(2) have len: "length xs = length rs"
        by (rule list_all2_lengthD)
      define x' where "x' = xs ! i"
      from i len have x': "x' \<in> set xs"
        by (simp add: x'_def)
      from list_all2_nthD2 [OF Cons.hyps(2) i] ri have R: "R x' r'"
        by (simp add: x'_def)
      from x' have "fst x' \<in> set (map fst xs)" by simp
      moreover from dist have "fst x \<notin> set (map fst xs)" by simp
      ultimately have "fst x' \<noteq> fst kv" using True by metis
      moreover from key [of x' r'] x' R have "P r' = (fst x' = fst kv)" by simp
      ultimately show ?thesis by simp
    qed
    then have "filter P rs = []" by (simp add: filter_empty_conv)
    with r p show ?thesis by simp
  next
    case False
    with mem have in_xs: "kv \<in> set xs" by simp
    then have "fst kv \<in> set (map fst xs)" by simp
    moreover from dist have "fst x \<notin> set (map fst xs)" by simp
    ultimately have "fst x \<noteq> fst kv" by metis
    moreover from key [of x r] Cons.hyps(1) have "P r = (fst x = fst kv)" by simp
    ultimately have "\<not> P r" by simp
    moreover have "filter P rs = [r0]"
    proof (rule Cons.IH)
      from dist show "distinct (map fst xs)" by simp
      from in_xs show "kv \<in> set xs" .
      show "P r = (fst kv' = fst kv)" if "kv' \<in> set xs" "R kv' r" for kv' r
        using key [of kv' r] that by simp
      show "r = r0" if "R kv r" for r
        using that by (rule uniq)
    qed
    ultimately show ?thesis by simp
  qed
qed

lemma writeOutpoint_inj:
  assumes "outpoint_roundtrip c op1" and "outpoint_roundtrip c op2"
    and "writeOutpoint c op1 = writeOutpoint c op2"
  shows "op1 = op2"
proof -
  from assms(1) obtain w where w: "writeOutpoint c op1 = Inr w"
    and r1: "\<And>rest. readOutpoint c (w @ rest) zero_OutPoint = Inr (op1, rest)"
    unfolding outpoint_roundtrip_def by blast
  from assms(2) obtain w' where w': "writeOutpoint c op2 = Inr w'"
    and r2: "\<And>rest. readOutpoint c (w' @ rest) zero_OutPoint = Inr (op2, rest)"
    unfolding outpoint_roundtrip_def by blast
  from w w' assms(3) have "w' = w" by simp
  with r1 [of "[]"] r2 [of "[]"] show ?thesis by simp
qed

lemma entry_of_unique:
  assumes "entry_of c ret kv" and "entry_of c ret' kv"
  shows "persisted_retributionInfo ret = persisted_retributionInfo ret'"
  using entry_of_Decode [OF assms(1)] entry_of_Decode [OF assms(2)] by simp

text \<open>
  Claim C5. On a well-formed store, after \<^verbatim>\<open>Add(r1)\<close> and then \<^verbatim>\<open>Add(r2)\<close> for
  the same channel point, both without an error, \<^verbatim>\<open>ForAll\<close> returns without an
  error, and among the records it has handed to its callback exactly one has that
  channel point: \<open>r2\<close>, in its persisted fields.
\<close>

theorem Add_overwrites_ForAll_visits_one:
  assumes wf: "store_wf c s"
    and r2: "retributionInfo_wf c r2"
    and cp: "chanPoint r1 = chanPoint r2"
    and a1: "retributionStore_Add c r1 s = (None, s1)"
    and a2: "retributionStore_Add c r2 s1 = (None, s2)"
  shows "\<exists>rs. retributionStore_ForAll c collect s2 [] = (None, rs) \<and>
           filter (\<lambda>r. chanPoint r = chanPoint r2) rs = [persisted_retributionInfo r2]"
proof -
  define b0 where "b0 = (case s retributionBucket of None \<Rightarrow> [] | Some b \<Rightarrow> b)"
  from wf have d0: "distinct (map fst b0)" and e0: "list_all (\<lambda>kv. \<exists>ret. entry_of c ret kv) b0"
    by (auto simp: store_wf_def bucket_wf_def b0_def split: option.splits)
  from Add_result [OF a1] obtain k v1 b1 where
    k: "writeOutpoint c (chanPoint r1) = Inr k" and
    p1: "Bucket_Put k v1 b0 = Inr b1" and s1: "s1 = s(retributionBucket \<mapsto> b1)"
    unfolding b0_def by blast
  from Add_result [OF a2] obtain k' v2 b2 where
    k': "writeOutpoint c (chanPoint r2) = Inr k'" and
    v2: "retributionInfo_Encode c r2 = Inr v2" and
    p2': "Bucket_Put k' v2 (case s1 retributionBucket of None \<Rightarrow> [] | Some b \<Rightarrow> b) = Inr b2" and
    s2: "s2 = s1(retributionBucket \<mapsto> b2)"
    by blast
  from k k' cp have kk: "k' = k" by simp
  from p2' have p2: "Bucket_Put k v2 b1 = Inr b2"
    by (simp add: s1 kk)
  note B1 = Bucket_Put_result [OF p1 d0]
  note B2 = Bucket_Put_result [OF p2 B1(1)]
  have set2: "set b2 = insert (k, v2) {kv \<in> set b0. fst kv \<noteq> k}"
    unfolding B2(2) B1(2) by auto
  have entry2: "entry_of c r2 (k, v2)"
    using r2 k' v2 by (simp add: entry_of_def kk)
  have e2: "list_all (\<lambda>kv. \<exists>ret. entry_of c ret kv) b2"
    unfolding list_all_iff
  proof
    fix kv assume "kv \<in> set b2"
    with set2 consider "kv = (k, v2)" | "kv \<in> set b0" by auto
    then show "\<exists>ret. entry_of c ret kv"
    proof cases
      case 1
      with entry2 show ?thesis by blast
    next
      case 2
      with e0 show ?thesis by (simp add: list_all_iff)
    qed
  qed
  from ForEach_collect [OF e2, of "[]"] obtain rs where
    fe: "Bucket_ForEach (\<lambda>outBytes retBytes s'.
             case retributionInfo_Decode c (zero_retributionInfo c) retBytes of
               Inl e \<Rightarrow> (Some e, s')
             | Inr (ret, rest) \<Rightarrow> collect ret s') b2 [] = (None, rs)"
    and rel: "list_all2 (\<lambda>kv r. \<exists>ret. entry_of c ret kv \<and> r = persisted_retributionInfo ret) b2 rs"
    by auto
  have forall: "retributionStore_ForAll c collect s2 [] = (None, rs)"
    by (simp add: retributionStore_ForAll_def db_View_def s2 fe)
  have "filter (\<lambda>r. chanPoint r = chanPoint r2) rs = [persisted_retributionInfo r2]"
  proof (rule filter_unique_key [OF rel B2(1), of "(k, v2)"])
    show "(k, v2) \<in> set b2" by (simp add: set2)
  next
    fix kv' r
    assume "kv' \<in> set b2"
      and "\<exists>ret. entry_of c ret kv' \<and> r = persisted_retributionInfo ret"
    then obtain ret where ret: "entry_of c ret kv'" and r: "r = persisted_retributionInfo ret"
      by blast
    have cr: "chanPoint r = chanPoint ret"
      by (simp add: r persisted_retributionInfo_def)
    from ret have w: "writeOutpoint c (chanPoint ret) = Inr (fst kv')"
      and o1: "outpoint_roundtrip c (chanPoint ret)"
      by (simp_all add: entry_of_def retributionInfo_wf_def)
    from r2 have o2: "outpoint_roundtrip c (chanPoint r2)"
      by (simp add: retributionInfo_wf_def)
    show "(chanPoint r = chanPoint r2) = (fst kv' = fst (k, v2))"
    proof
      assume "chanPoint r = chanPoint r2"
      with cr w k' kk show "fst kv' = fst (k, v2)" by simp
    next
      assume "fst kv' = fst (k, v2)"
      with w k' kk have "writeOutpoint c (chanPoint ret) = writeOutpoint c (chanPoint r2)"
        by simp
      from writeOutpoint_inj [OF o1 o2 this] cr show "chanPoint r = chanPoint r2" by simp
    qed
  next
    fix r
    assume "\<exists>ret. entry_of c ret (k, v2) \<and> r = persisted_retributionInfo ret"
    then obtain ret where "entry_of c ret (k, v2)" and "r = persisted_retributionInfo ret"
      by blast
    with entry_of_unique [OF this(1) entry2] show "r = persisted_retributionInfo r2"
      by simp
  qed
  with forall show ?thesis by blast
qed

lemma length_WriteVarInt: "length (WriteVarInt v) \<le> 9"
  by (simp add: WriteVarInt_def length_PutUint)

lemma simple_Encode_output:
  "\<exists>w. breachedOutput_Encode simple_codec (example_output a i wt two) = Inr w \<and> length w = 50"
  by (simp add: breachedOutput_Encode_def example_output_def example_outpoint_def
      simple_codec_def simple_writeOutpoint_def simple_WriteSignDescriptor_def
      length_PutUint WriteVarInt_def)

lemma simple_Add_example:
  "\<exists>s'. retributionStore_Add simple_codec (example_retribution a b []) s = (None, s')"
proof -
  obtain w6 where w6: "breachedOutput_Encode simple_codec (example_output a 0 CommitmentNoDelay False) = Inr w6"
    and l6: "length w6 = 50"
    using simple_Encode_output by blast
  obtain w7 where w7: "breachedOutput_Encode simple_codec (example_output b 1 CommitmentRevoke False) = Inr w7"
    and l7: "length w7 = 50"
    using simple_Encode_output by blast
  have k: "writeOutpoint simple_codec (chanPoint (example_retribution a b [])) =
             Inr (replicate 32 9 @ PutUint32_BE 0)"
    by (simp add: simple_codec_def simple_writeOutpoint_def example_retribution_def
        example_outpoint_def)
  obtain v where v: "retributionInfo_Encode simple_codec (example_retribution a b []) = Inr v"
    and lv: "length v = 218"
    using w6 w7 l6 l7
    by (simp add: retributionInfo_Encode_def k [simplified example_retribution_def, simplified]
        example_retribution_def simple_codec_def simple_writeOutpoint_def example_outpoint_def
        length_PutUint WriteVarInt_def)
  show ?thesis
    by (simp add: retributionStore_Add_def db_Update_def CreateBucketIfNotExists_def k v
        Bucket_Put_def MaxKeySize_def MaxValueSize_def lv length_PutUint
        retributionBucket_nonempty split: option.splits)
qed

text \<open>
  The theorem on the empty database, for two retributions of one channel point that
  differ in their balances.
\<close>

theorem Add_overwrites_ForAll_visits_one_witness:
  "store_wf simple_codec Map.empty \<and>
   retributionInfo_wf simple_codec (example_retribution 6000 4000 []) \<and>
   chanPoint (example_retribution 7000 3000 []) = chanPoint (example_retribution 6000 4000 []) \<and>
   fst (retributionStore_Add simple_codec (example_retribution 7000 3000 []) Map.empty) = None \<and>
   fst (retributionStore_Add simple_codec (example_retribution 6000 4000 [])
          (snd (retributionStore_Add simple_codec (example_retribution 7000 3000 []) Map.empty))) =
     None \<and>
   (\<exists>rs. retributionStore_ForAll simple_codec collect
            (snd (retributionStore_Add simple_codec (example_retribution 6000 4000 [])
               (snd (retributionStore_Add simple_codec (example_retribution 7000 3000 [])
                  Map.empty)))) [] = (None, rs) \<and>
         filter (\<lambda>r. chanPoint r = chanPoint (example_retribution 6000 4000 [])) rs =
           [persisted_retributionInfo (example_retribution 6000 4000 [])])"
proof -
  let ?r1 = "example_retribution 7000 3000 [] :: (bytes, bytes) retributionInfo"
  let ?r2 = "example_retribution 6000 4000 [] :: (bytes, bytes) retributionInfo"
  have wf: "store_wf simple_codec Map.empty"
    by (simp add: store_wf_def)
  have r2: "retributionInfo_wf simple_codec ?r2"
    by (rule example_retribution_wf) (simp_all add: maxAlloc_def)
  have cp: "chanPoint ?r1 = chanPoint ?r2"
    by (simp add: example_retribution_def)
  obtain s1 where a1: "retributionStore_Add simple_codec ?r1 Map.empty = (None, s1)"
    using simple_Add_example by blast
  obtain s2 where a2: "retributionStore_Add simple_codec ?r2 s1 = (None, s2)"
    using simple_Add_example by blast
  from Add_overwrites_ForAll_visits_one [OF wf r2 cp a1 a2] wf r2 cp show ?thesis
    by (simp add: a1 a2)
qed

lemma Remove_missing_bucket:
  assumes "s retributionBucket = None"
  shows "retributionStore_Remove c key s = (Some ErrBucketNotExist, s)"
  using assms by (simp add: retributionStore_Remove_def db_Update_def)

lemma Remove_existing_bucket:
  assumes "s retributionBucket = Some b" and "writeOutpoint c key = Inr w"
  shows "retributionStore_Remove c key s = (None, s(retributionBucket \<mapsto> Bucket_Delete w b))"
  using assms by (simp add: retributionStore_Remove_def db_Update_def)

text \<open>
  Well-formedness is an invariant of the store: it holds of the empty database and is
  kept by every \<^verbatim>\<open>Add\<close> of a well-formed retribution and by every
  \<^verbatim>\<open>Remove\<close>.
\<close>

lemma store_wf_empty: "store_wf c Map.empty"
  by (simp add: store_wf_def)

lemma store_wf_Add:
  assumes "store_wf c s" and "retributionInfo_wf c ret"
    and "retributionStore_Add c ret s = (err, s')"
  shows "store_wf c s'"
proof (cases err)
  case (Some e)
  with assms(3) have "s' = s"
    by (auto simp: retributionStore_Add_def db_Update_def split: prod.splits option.splits)
  with assms(1) show ?thesis by simp
next
  case None
  define b0 where "b0 = (case s retributionBucket of None \<Rightarrow> [] | Some b \<Rightarrow> b)"
  from assms(1) have d0: "distinct (map fst b0)"
    and e0: "list_all (\<lambda>kv. \<exists>ret. entry_of c ret kv) b0"
    by (auto simp: store_wf_def bucket_wf_def b0_def split: option.splits)
  from Add_result [OF assms(3) [unfolded None]] obtain k v b' where
    k: "writeOutpoint c (chanPoint ret) = Inr k" and
    v: "retributionInfo_Encode c ret = Inr v" and
    p: "Bucket_Put k v b0 = Inr b'" and s': "s' = s(retributionBucket \<mapsto> b')"
    unfolding b0_def by blast
  note B = Bucket_Put_result [OF p d0]
  have "entry_of c ret (k, v)"
    using assms(2) k v by (simp add: entry_of_def)
  with B(2) e0 have "list_all (\<lambda>kv. \<exists>ret. entry_of c ret kv) b'"
    by (auto simp: list_all_iff)
  with B(1) show ?thesis
    by (simp add: store_wf_def bucket_wf_def s')
qed

lemma store_wf_Remove:
  assumes "store_wf c s" and "retributionStore_Remove c key s = (err, s')"
  shows "store_wf c s'"
proof (cases "s retributionBucket")
  case None
  with assms(2) have "s' = s"
    by (simp add: Remove_missing_bucket)
  with assms(1) show ?thesis by simp
next
  case (Some b)
  show ?thesis
  proof (cases "writeOutpoint c key")
    case (Inl e)
    with Some assms(2) have "s' = s"
      by (simp add: retributionStore_Remove_def db_Update_def)
    with assms(1) show ?thesis by simp
  next
    case (Inr w)
    from Remove_existing_bucket [where s = s, OF Some Inr] assms(2)
    have s': "s' = s(retributionBucket \<mapsto> Bucket_Delete w b)" by simp
    from assms(1) Some have "bucket_wf c b"
      by (simp add: store_wf_def)
    then have "bucket_wf c (Bucket_Delete w b)"
      by (auto simp: bucket_wf_def Bucket_Delete_def distinct_map_filter list_all_iff)
    then show ?thesis
      by (simp add: store_wf_def s')
  qed
qed

text \<open>
  Claim C6, as amended. \<^verbatim>\<open>Remove\<close> returns an error, and changes nothing, whenever
  the bucket of the store does not exist. When the bucket exists, empty or not, and the
  channel point can be written, \<^verbatim>\<open>Remove\<close> returns nil and leaves the bucket without
  the key.
\<close>

theorem Remove_error_iff_no_bucket:
  "(s retributionBucket = None \<longrightarrow>
      retributionStore_Remove c key s = (Some ErrBucketNotExist, s)) \<and>
   (\<forall>b w. s retributionBucket = Some b \<longrightarrow> writeOutpoint c key = Inr w \<longrightarrow>
      retributionStore_Remove c key s = (None, s(retributionBucket \<mapsto> Bucket_Delete w b)))"
  by (simp add: Remove_missing_bucket Remove_existing_bucket)

text \<open>The theorem on a database without the bucket and on one whose bucket is empty.\<close>

theorem Remove_error_iff_no_bucket_witness:
  "retributionStore_Remove simple_codec (example_outpoint 9 0) Map.empty =
     (Some ErrBucketNotExist, Map.empty) \<and>
   retributionStore_Remove simple_codec (example_outpoint 9 0) [retributionBucket \<mapsto> []] =
     (None, [retributionBucket \<mapsto> []])"
proof -
  have w: "writeOutpoint simple_codec (example_outpoint 9 0) =
             Inr (replicate 32 9 @ PutUint32_BE 0)"
    by (simp add: simple_codec_def simple_writeOutpoint_def example_outpoint_def)
  have e: "[retributionBucket \<mapsto> []] retributionBucket = Some ([] :: bucket)"
    by simp
  from Remove_error_iff_no_bucket [of Map.empty simple_codec "example_outpoint 9 0"]
  have "retributionStore_Remove simple_codec (example_outpoint 9 0) Map.empty =
          (Some ErrBucketNotExist, Map.empty)"
    by simp
  moreover
  from Remove_error_iff_no_bucket [of "[retributionBucket \<mapsto> []]" simple_codec
      "example_outpoint 9 0"] e w
  have "retributionStore_Remove simple_codec (example_outpoint 9 0) [retributionBucket \<mapsto> []] =
          (None, [retributionBucket \<mapsto> []])"
    by (simp add: Bucket_Delete_def)
  ultimately show ?thesis by simp
qed

lemma Add_then_Remove:
  "snd (retributionStore_Remove simple_codec (example_outpoint 9 0)
          (snd (retributionStore_Add simple_codec (example_retribution a b []) Map.empty))) =
     [retributionBucket \<mapsto> []]"
proof -
  obtain s1 where a1: "retributionStore_Add simple_codec (example_retribution a b []) Map.empty =
      (None, s1)"
    using simple_Add_example by blast
  from Add_result [OF a1] obtain k v b' where
    k: "writeOutpoint simple_codec (chanPoint (example_retribution a b [])) = Inr k" and
    p: "Bucket_Put k v [] = Inr b'" and s1: "s1 = [retributionBucket \<mapsto> b']"
    by auto
  from p have b': "b' = [(k, v)]"
    by (simp add: Bucket_Put_def split: if_splits)
  from k have k': "writeOutpoint simple_codec (example_outpoint 9 0) = Inr k"
    by (simp add: example_retribution_def)
  have "retributionStore_Remove simple_codec (example_outpoint 9 0) s1 =
          (None, s1(retributionBucket \<mapsto> Bucket_Delete k b'))"
    by (rule Remove_existing_bucket) (simp_all add: s1 k')
  then show ?thesis
    by (simp add: a1 s1 b' Bucket_Delete_def)
qed

text \<open>
  Claim C6, as stated, fails on an empty bucket: after \<^verbatim>\<open>Add\<close> of a retribution and
  \<^verbatim>\<open>Remove\<close> of its channel point the bucket exists and holds no record, and a
  further \<^verbatim>\<open>Remove\<close> returns nil.
\<close>

theorem Remove_on_empty_bucket_counterexample:
  "snd (retributionStore_Remove simple_codec (example_outpoint 9 0)
          (snd (retributionStore_Add simple_codec (example_retribution 7000 3000 []) Map.empty)))
     retributionBucket = Some [] \<and>
   fst (retributionStore_Remove simple_codec (example_outpoint 9 0)
          (snd (retributionStore_Remove simple_codec (example_outpoint 9 0)
             (snd (retributionStore_Add simple_codec (example_retribution 7000 3000 [])
                Map.empty))))) = None"
proof -
  have w: "writeOutpoint simple_codec (example_outpoint 9 0) =
             Inr (replicate 32 9 @ PutUint32_BE 0)"
    by (simp add: simple_codec_def simple_writeOutpoint_def example_outpoint_def)
  have "retributionStore_Remove simple_codec (example_outpoint 9 0) [retributionBucket \<mapsto> []] =
          (None, [retributionBucket \<mapsto> []](retributionBucket \<mapsto>
             Bucket_Delete (replicate 32 9 @ PutUint32_BE 0) []))"
    by (rule Remove_existing_bucket) (simp_all add: w)
  then show ?thesis
    by (simp add: Add_then_Remove)
qed

section \<open>Properties of the sweep transactions\<close>

lemma sint_sub_5000:
  fixes a :: "64 word"
  assumes "- (2 ^ 63) + 5000 \<le> sint a"
  shows "sint (a - 5000) = sint a - 5000"
proof -
  have "sint (a - 5000) = signed_take_bit 63 (sint a - sint (5000 :: 64 word))"
    by (simp add: sint_word_ariths)
  also have "sint (5000 :: 64 word) = 5000" by simp
  also have "signed_take_bit 63 (sint a - 5000) = sint a - 5000"
  proof (rule signed_take_bit_int_eq_self)
    from assms show "- (2 ^ 63) \<le> sint a - 5000" by simp
    have "sint a < 2 ^ 63" using sint_lt [of a] by simp
    then show "sint a - 5000 < 2 ^ 63" by simp
  qed
  finally show ?thesis .
qed

lemma sint_add_nonneg:
  fixes a b :: "64 word"
  assumes "0 \<le> sint a" and "0 \<le> sint b" and "sint a + sint b < 2 ^ 63"
  shows "sint (a + b) = sint a + sint b"
proof -
  have "sint (a + b) = signed_take_bit 63 (sint a + sint b)"
    by (simp add: sint_word_ariths)
  also have "\<dots> = sint a + sint b"
    by (rule signed_take_bit_int_eq_self) (use assms in simp_all)
  finally show ?thesis .
qed


lemma createJusticeTx_Inr:
  assumes "createJusticeTx b r = (Inr tx, r')"
  shows "\<exists>script localWitness remoteWitness.
           newSweepPkScript b = Inr script \<and>
           tx = \<lparr>Version = 2,
                 TxIn = [\<lparr>PreviousOutPoint = outpoint (selfOutput r), SignatureScript = [],
                           Witness = localWitness, Sequence = 0\<rparr>,
                         \<lparr>PreviousOutPoint = outpoint (revokedOutput r), SignatureScript = [],
                           Witness = remoteWitness, Sequence = 0\<rparr>],
                 TxOut = [\<lparr>Value = amt (selfOutput r) + amt (revokedOutput r) - 5000,
                            PkScript = script\<rparr>],
                 LockTime = 0\<rparr>"
  using assms
  by (auto simp: createJusticeTx_def Let_def NewMsgTx_def AddTxIn_def AddTxOut_def TxIn_of_def
      set_Witness_def split: sum.splits)

text \<open>
  Claim C2. For every retribution with no HTLC outputs, whenever \<^verbatim>\<open>createJusticeTx\<close>
  succeeds, the transaction it returns has version 2, exactly two inputs, spending the
  outpoint of \<open>selfOutput\<close> at index 0 and the outpoint of \<open>revokedOutput\<close> at index 1,
  and exactly one output, which pays the script the wallet supplied and whose value is
  \<open>selfOutput.amt + revokedOutput.amt - 5000\<close> in 64-bit arithmetic; that is the
  integer \<open>A + B - 5000\<close> for amounts \<open>A\<close> and \<open>B\<close> that are not negative and whose sum
  is a 64-bit amount.
\<close>

theorem createJusticeTx_shape:
  assumes "htlcOutputs r = []" and "createJusticeTx b r = (Inr tx, r')"
  shows "Version tx = 2 \<and>
         map PreviousOutPoint (TxIn tx) = [outpoint (selfOutput r), outpoint (revokedOutput r)] \<and>
         (\<exists>script. newSweepPkScript b = Inr script \<and>
            TxOut tx = [\<lparr>Value = amt (selfOutput r) + amt (revokedOutput r) - 5000,
                         PkScript = script\<rparr>]) \<and>
         (0 \<le> sint (amt (selfOutput r)) \<and> 0 \<le> sint (amt (revokedOutput r)) \<and>
          sint (amt (selfOutput r)) + sint (amt (revokedOutput r)) < 2 ^ 63 \<longrightarrow>
            map (\<lambda>out. sint (Value out)) (TxOut tx) =
              [sint (amt (selfOutput r)) + sint (amt (revokedOutput r)) - 5000])"
proof -
  from createJusticeTx_Inr [OF assms(2)] obtain script localWitness remoteWitness where
    s: "newSweepPkScript b = Inr script" and
    tx: "tx = \<lparr>Version = 2,
                 TxIn = [\<lparr>PreviousOutPoint = outpoint (selfOutput r), SignatureScript = [],
                           Witness = localWitness, Sequence = 0\<rparr>,
                         \<lparr>PreviousOutPoint = outpoint (revokedOutput r), SignatureScript = [],
                           Witness = remoteWitness, Sequence = 0\<rparr>],
                 TxOut = [\<lparr>Value = amt (selfOutput r) + amt (revokedOutput r) - 5000,
                            PkScript = script\<rparr>],
                 LockTime = 0\<rparr>"
    by blast
  have v: "sint (amt (selfOutput r) + amt (revokedOutput r) - 5000) =
             sint (amt (selfOutput r)) + sint (amt (revokedOutput r)) - 5000"
    if "0 \<le> sint (amt (selfOutput r))" "0 \<le> sint (amt (revokedOutput r))"
      "sint (amt (selfOutput r)) + sint (amt (revokedOutput r)) < 2 ^ 63"
  proof -
    from that have a: "sint (amt (selfOutput r) + amt (revokedOutput r)) =
        sint (amt (selfOutput r)) + sint (amt (revokedOutput r))"
      by (intro sint_add_nonneg)
    with that have "- (2 ^ 63) + 5000 \<le> sint (amt (selfOutput r) + amt (revokedOutput r))"
      by simp
    from sint_sub_5000 [OF this] a show ?thesis by simp
  qed
  show ?thesis
    using s v by (simp add: tx)
qed

text \<open>The theorem at amounts 7000 and 3000: one output of 5000.\<close>

theorem createJusticeTx_shape_witness:
  "htlcOutputs (example_retribution 7000 3000 []) = [] \<and>
   fst (createJusticeTx (simple_wallet [0x51]) (example_retribution 7000 3000 [])) =
     Inr \<lparr>Version = 2,
          TxIn = [\<lparr>PreviousOutPoint = example_outpoint 1 0, SignatureScript = [],
                    Witness = [[0]], Sequence = 0\<rparr>,
                  \<lparr>PreviousOutPoint = example_outpoint 1 1, SignatureScript = [],
                    Witness = [[1]], Sequence = 0\<rparr>],
          TxOut = [\<lparr>Value = 5000, PkScript = [0x51]\<rparr>],
          LockTime = 0\<rparr>"
proof -
  let ?r = "example_retribution 7000 3000 [] :: (bytes, bytes) retributionInfo"
  have h: "htlcOutputs ?r = []"
    by (simp add: example_retribution_def)
  obtain tx r' where c: "createJusticeTx (simple_wallet [0x51]) ?r = (Inr tx, r')"
    by (simp add: createJusticeTx_def simple_wallet_def Let_def)
  have w: "map Witness (TxIn tx) = [[[0]], [[1]]]" "map SignatureScript (TxIn tx) = [[], []]"
    "map Sequence (TxIn tx) = [0, 0]" "LockTime tx = 0"
    using c
    by (auto simp: createJusticeTx_def simple_wallet_def Let_def NewMsgTx_def AddTxIn_def
        AddTxOut_def TxIn_of_def set_Witness_def)
  from createJusticeTx_shape [OF h c] have
    "Version tx = 2"
    "map PreviousOutPoint (TxIn tx) = [example_outpoint 1 0, example_outpoint 1 1]"
    "TxOut tx = [\<lparr>Value = 5000, PkScript = [0x51]\<rparr>]"
    by (auto simp: example_retribution_def example_output_def simple_wallet_def)
  with w have "tx = \<lparr>Version = 2,
          TxIn = [\<lparr>PreviousOutPoint = example_outpoint 1 0, SignatureScript = [],
                    Witness = [[0]], Sequence = 0\<rparr>,
                  \<lparr>PreviousOutPoint = example_outpoint 1 1, SignatureScript = [],
                    Witness = [[1]], Sequence = 0\<rparr>],
          TxOut = [\<lparr>Value = 5000, PkScript = [0x51]\<rparr>],
          LockTime = 0\<rparr>"
    by (cases tx) (auto simp: map_eq_Cons_conv)
  with h c show ?thesis by simp
qed


lemma craftCommitSweepTx_small:
  assumes "- (2 ^ 63) + 5000 \<le> sint (Value (Output (SelfOutputSignDesc closeInfo)))"
    and "sint (Value (Output (SelfOutputSignDesc closeInfo))) \<le> 5000"
  shows "craftCommitSweepTx w closeInfo =
           (case newSweepPkScript w of Inl e \<Rightarrow> Inl e | Inr script \<Rightarrow> Inl ErrOutputTooSmall)"
proof -
  from sint_sub_5000 [OF assms(1)] assms(2)
  have "sint (Value (Output (SelfOutputSignDesc closeInfo)) - 5000) \<le> 0"
    by simp
  then show ?thesis
    by (simp add: craftCommitSweepTx_def Let_def split: sum.splits)
qed

text \<open>
  Claim C4. For every unilateral close summary whose self output value is at most 5000
  satoshis (and not below \<open>-2^63 + 5000\<close>, where the 64-bit subtraction would wrap
  around), \<^verbatim>\<open>craftCommitSweepTx\<close> returns an error and no transaction; the error is
  the "output too small" one whenever the wallet has supplied the sweep script. The
  callback of the close then publishes nothing: it makes no call of
  \<^verbatim>\<open>PublishTransaction\<close>, its only call being the one that marks the channel fully
  closed.
\<close>

theorem craftCommitSweepTx_rejects_small:
  assumes "- (2 ^ 63) + 5000 \<le> sint (Value (Output (SelfOutputSignDesc closeInfo)))"
    and "sint (Value (Output (SelfOutputSignDesc closeInfo))) \<le> 5000"
  shows "(\<exists>e. craftCommitSweepTx (wallet b) closeInfo = Inl e) \<and>
         (\<forall>script. newSweepPkScript (wallet b) = Inr script \<longrightarrow>
            craftCommitSweepTx (wallet b) closeInfo = Inl ErrOutputTooSmall) \<and>
         published (unilateralCloseCallback b closeInfo cp st) = published st \<and>
         calls (unilateralCloseCallback b closeInfo cp st) =
           calls st @ [Call_MarkChanFullyClosed cp]"
proof -
  note c = craftCommitSweepTx_small [OF assms, of "wallet b"]
  have "\<exists>e. craftCommitSweepTx (wallet b) closeInfo = Inl e"
    by (simp add: c split: sum.splits)
  moreover have "\<forall>script. newSweepPkScript (wallet b) = Inr script \<longrightarrow>
            craftCommitSweepTx (wallet b) closeInfo = Inl ErrOutputTooSmall"
    by (simp add: c)
  moreover have "published (unilateralCloseCallback b closeInfo cp st) = published st \<and>
         calls (unilateralCloseCallback b closeInfo cp st) =
           calls st @ [Call_MarkChanFullyClosed cp]"
    by (simp add: unilateralCloseCallback_def c db_MarkChanFullyClosed_def called_def Let_def
        split: sum.splits option.splits)
  ultimately show ?thesis by blast
qed

text \<open>The theorem at a self output of 4999 satoshis (scenario S6 of the spec).\<close>

theorem craftCommitSweepTx_rejects_small_witness:
  "craftCommitSweepTx (wallet (simple_arbiter Confirmed None)) (example_closeSummary 4999) =
     Inl ErrOutputTooSmall \<and>
   published (unilateralCloseCallback (simple_arbiter Confirmed None) (example_closeSummary 4999)
     (example_outpoint 9 0) fresh_node) = [] \<and>
   calls (unilateralCloseCallback (simple_arbiter Confirmed None) (example_closeSummary 4999)
     (example_outpoint 9 0) fresh_node) = [Call_MarkChanFullyClosed (example_outpoint 9 0)]"
proof -
  have v: "Value (Output (SelfOutputSignDesc (example_closeSummary 4999 :: bytes UnilateralCloseSummary))) = 4999"
    by (simp add: example_closeSummary_def)
  have a: "- (2 ^ 63) + 5000 \<le> sint (Value (Output (SelfOutputSignDesc
             (example_closeSummary 4999 :: bytes UnilateralCloseSummary))))"
    by (simp add: v)
  have b: "sint (Value (Output (SelfOutputSignDesc
             (example_closeSummary 4999 :: bytes UnilateralCloseSummary)))) \<le> 5000"
    by (simp add: v)
  have s: "newSweepPkScript (wallet (simple_arbiter Confirmed None)) = Inr [0x51]"
    by (simp add: simple_arbiter_def simple_wallet_def)
  from craftCommitSweepTx_rejects_small [OF a b, of "simple_arbiter Confirmed None"
      "example_outpoint 9 0" fresh_node] s
  show ?thesis
    by (simp add: fresh_node_def)
qed

lemma createJusticeTx_errors:
  assumes "createJusticeTx b r = (Inl e, r')"
  shows "newSweepPkScript b = Inl e \<or>
         (\<exists>tx hc i. GenWitnessFunc b (witnessType (selfOutput r))
            (signDescriptor (selfOutput r)) tx hc i = Inl e) \<or>
         (\<exists>tx hc i. GenWitnessFunc b (witnessType (revokedOutput r))
            (signDescriptor (revokedOutput r)) tx hc i = Inl e)"
  using assms
  by (auto simp: createJusticeTx_def Let_def split: sum.splits)

lemma createJusticeTx_builds:
  assumes "newSweepPkScript b = Inr script"
    and "tx0 = AddTxIn (TxIn_of (outpoint (revokedOutput r)))
                 (AddTxIn (TxIn_of (outpoint (selfOutput r)))
                   (AddTxOut \<lparr>Value = amt (selfOutput r) + amt (revokedOutput r) - 5000,
                              PkScript = script\<rparr> (NewMsgTx 2)))"
    and "GenWitnessFunc b (witnessType (selfOutput r)) (signDescriptor (selfOutput r))
           tx0 (NewTxSigHashes b tx0) 0 = Inr w1"
    and "GenWitnessFunc b (witnessType (revokedOutput r)) (signDescriptor (revokedOutput r))
           (set_Witness 0 w1 tx0) (NewTxSigHashes b tx0) 1 = Inr w2"
  shows "fst (createJusticeTx b r) = Inr (set_Witness 1 w2 (set_Witness 0 w1 tx0))"
  using assms(1) assms(3) assms(4) unfolding assms(2)
  by (simp add: createJusticeTx_def Let_def)

text \<open>
  Claim C10. \<^verbatim>\<open>createJusticeTx\<close> has no lower bound on the swept amount. For every
  retribution whose total \<open>selfOutput.amt + revokedOutput.amt\<close>, as the code computes
  it, is at most 5000 (and not below \<open>-2^63 + 5000\<close>, where the subtraction would wrap
  around), and for every wallet: a transaction that the function returns has a single
  output, of value \<open>selfOutput.amt + revokedOutput.amt - 5000\<close>, zero or negative as a
  signed 64-bit integer; the function does return it whenever the wallet supplies the
  script and the signer answers the two calls the function makes, for input 0 on the
  transaction without witnesses and for input 1 on the transaction with the first
  witness; an error it returns is the wallet's for the script or the signer's for a
  witness, never one about the amount; where \<^verbatim>\<open>craftCommitSweepTx\<close> with the same
  wallet fails on an output of that total with the "output too small" error.
\<close>

theorem createJusticeTx_no_lower_bound:
  assumes "- (2 ^ 63) + 5000 \<le> sint (amt (selfOutput r) + amt (revokedOutput r))"
    and "sint (amt (selfOutput r) + amt (revokedOutput r)) \<le> 5000"
  shows "(\<forall>tx r'. createJusticeTx b r = (Inr tx, r') \<longrightarrow>
            (\<exists>out. TxOut tx = [out] \<and>
               Value out = amt (selfOutput r) + amt (revokedOutput r) - 5000 \<and>
               sint (Value out) = sint (amt (selfOutput r) + amt (revokedOutput r)) - 5000 \<and>
               sint (Value out) \<le> 0)) \<and>
         (\<forall>script tx0 w1 w2.
            newSweepPkScript b = Inr script \<and>
            tx0 = AddTxIn (TxIn_of (outpoint (revokedOutput r)))
                    (AddTxIn (TxIn_of (outpoint (selfOutput r)))
                      (AddTxOut \<lparr>Value = amt (selfOutput r) + amt (revokedOutput r) - 5000,
                                 PkScript = script\<rparr> (NewMsgTx 2))) \<and>
            GenWitnessFunc b (witnessType (selfOutput r)) (signDescriptor (selfOutput r))
              tx0 (NewTxSigHashes b tx0) 0 = Inr w1 \<and>
            GenWitnessFunc b (witnessType (revokedOutput r)) (signDescriptor (revokedOutput r))
              (set_Witness 0 w1 tx0) (NewTxSigHashes b tx0) 1 = Inr w2 \<longrightarrow>
            fst (createJusticeTx b r) = Inr (set_Witness 1 w2 (set_Witness 0 w1 tx0))) \<and>
         (\<forall>e r'. createJusticeTx b r = (Inl e, r') \<longrightarrow>
            newSweepPkScript b = Inl e \<or>
            (\<exists>tx hc i. GenWitnessFunc b (witnessType (selfOutput r))
               (signDescriptor (selfOutput r)) tx hc i = Inl e) \<or>
            (\<exists>tx hc i. GenWitnessFunc b (witnessType (revokedOutput r))
               (signDescriptor (revokedOutput r)) tx hc i = Inl e)) \<and>
         (\<forall>script closeInfo.
            newSweepPkScript b = Inr script \<and>
            Value (Output (SelfOutputSignDesc closeInfo)) =
              amt (selfOutput r) + amt (revokedOutput r) \<longrightarrow>
            craftCommitSweepTx b closeInfo = Inl ErrOutputTooSmall)"
proof (intro conjI allI impI)
  fix tx r'
  assume c: "createJusticeTx b r = (Inr tx, r')"
  from createJusticeTx_Inr [OF c] obtain script where
    o: "TxOut tx =
          [\<lparr>Value = amt (selfOutput r) + amt (revokedOutput r) - 5000, PkScript = script\<rparr>]"
    by auto
  from sint_sub_5000 [OF assms(1)]
  have v: "sint (amt (selfOutput r) + amt (revokedOutput r) - 5000) =
             sint (amt (selfOutput r) + amt (revokedOutput r)) - 5000" .
  with assms(2) have "sint (amt (selfOutput r) + amt (revokedOutput r) - 5000) \<le> 0"
    by simp
  with o v show "\<exists>out. TxOut tx = [out] \<and>
               Value out = amt (selfOutput r) + amt (revokedOutput r) - 5000 \<and>
               sint (Value out) = sint (amt (selfOutput r) + amt (revokedOutput r)) - 5000 \<and>
               sint (Value out) \<le> 0"
    by simp
next
  fix script tx0 w1 w2
  assume "newSweepPkScript b = Inr script \<and>
            tx0 = AddTxIn (TxIn_of (outpoint (revokedOutput r)))
                    (AddTxIn (TxIn_of (outpoint (selfOutput r)))
                      (AddTxOut \<lparr>Value = amt (selfOutput r) + amt (revokedOutput r) - 5000,
                                 PkScript = script\<rparr> (NewMsgTx 2))) \<and>
            GenWitnessFunc b (witnessType (selfOutput r)) (signDescriptor (selfOutput r))
              tx0 (NewTxSigHashes b tx0) 0 = Inr w1 \<and>
            GenWitnessFunc b (witnessType (revokedOutput r)) (signDescriptor (revokedOutput r))
              (set_Witness 0 w1 tx0) (NewTxSigHashes b tx0) 1 = Inr w2"
  then have h1: "newSweepPkScript b = Inr script"
    and h2: "tx0 = AddTxIn (TxIn_of (outpoint (revokedOutput r)))
                    (AddTxIn (TxIn_of (outpoint (selfOutput r)))
                      (AddTxOut \<lparr>Value = amt (selfOutput r) + amt (revokedOutput r) - 5000,
                                 PkScript = script\<rparr> (NewMsgTx 2)))"
    and h3: "GenWitnessFunc b (witnessType (selfOutput r)) (signDescriptor (selfOutput r))
              tx0 (NewTxSigHashes b tx0) 0 = Inr w1"
    and h4: "GenWitnessFunc b (witnessType (revokedOutput r))
              (signDescriptor (revokedOutput r)) (set_Witness 0 w1 tx0)
              (NewTxSigHashes b tx0) 1 = Inr w2"
    by blast+
  show "fst (createJusticeTx b r) = Inr (set_Witness 1 w2 (set_Witness 0 w1 tx0))"
    by (rule createJusticeTx_builds [OF h1 h2 h3 h4])
next
  fix e r'
  assume "createJusticeTx b r = (Inl e, r')"
  then show "newSweepPkScript b = Inl e \<or>
            (\<exists>tx hc i. GenWitnessFunc b (witnessType (selfOutput r))
               (signDescriptor (selfOutput r)) tx hc i = Inl e) \<or>
            (\<exists>tx hc i. GenWitnessFunc b (witnessType (revokedOutput r))
               (signDescriptor (revokedOutput r)) tx hc i = Inl e)"
    by (rule createJusticeTx_errors)
next
  fix script and closeInfo :: "'c UnilateralCloseSummary"
  assume a: "newSweepPkScript b = Inr script \<and>
            Value (Output (SelfOutputSignDesc closeInfo)) =
              amt (selfOutput r) + amt (revokedOutput r)"
  with assms have "craftCommitSweepTx b closeInfo =
           (case newSweepPkScript b of Inl e \<Rightarrow> Inl e | Inr script \<Rightarrow> Inl ErrOutputTooSmall)"
    by (intro craftCommitSweepTx_small) simp_all
  with a show "craftCommitSweepTx b closeInfo = Inl ErrOutputTooSmall"
    by simp
qed

text \<open>
  The theorem at amounts 2000 and 1000, with a signer that refuses an input index the
  transaction does not have: the justice transaction is built, with one output of -2000
  satoshis, where the sweep of an output of 3000 is refused.
\<close>

theorem createJusticeTx_no_lower_bound_witness:
  "fst (createJusticeTx (checking_wallet [0x51]) (example_retribution 2000 1000 [])) =
     Inr \<lparr>Version = 2,
          TxIn = [\<lparr>PreviousOutPoint = example_outpoint 1 0, SignatureScript = [],
                    Witness = [[0]], Sequence = 0\<rparr>,
                  \<lparr>PreviousOutPoint = example_outpoint 1 1, SignatureScript = [],
                    Witness = [[1]], Sequence = 0\<rparr>],
          TxOut = [\<lparr>Value = 2000 + 1000 - 5000, PkScript = [0x51]\<rparr>],
          LockTime = 0\<rparr> \<and>
   sint (2000 + 1000 - 5000 :: 64 word) = - 2000 \<and>
   craftCommitSweepTx (checking_wallet [0x51]) (example_closeSummary 3000) =
     Inl ErrOutputTooSmall"
proof -
  let ?r = "example_retribution 2000 1000 [] :: (bytes, bytes) retributionInfo"
  let ?b = "checking_wallet [0x51]"
  let ?tx0 = "AddTxIn (TxIn_of (outpoint (revokedOutput ?r)))
                (AddTxIn (TxIn_of (outpoint (selfOutput ?r)))
                  (AddTxOut \<lparr>Value = amt (selfOutput ?r) + amt (revokedOutput ?r) - 5000,
                             PkScript = [0x51]\<rparr> (NewMsgTx 2)))"
  have a: "amt (selfOutput ?r) + amt (revokedOutput ?r) = 3000"
    by (simp add: example_retribution_def example_output_def)
  have lo: "- (2 ^ 63) + 5000 \<le> sint (amt (selfOutput ?r) + amt (revokedOutput ?r))"
    by (simp add: a)
  have hi: "sint (amt (selfOutput ?r) + amt (revokedOutput ?r)) \<le> 5000"
    by (simp add: a)
  have s: "newSweepPkScript ?b = Inr [0x51]"
    by (simp add: checking_wallet_def simple_wallet_def)
  have g1: "GenWitnessFunc ?b (witnessType (selfOutput ?r)) (signDescriptor (selfOutput ?r))
              ?tx0 (NewTxSigHashes ?b ?tx0) 0 = Inr [[0]]"
    by (simp add: checking_wallet_def simple_wallet_def AddTxIn_def AddTxOut_def NewMsgTx_def)
  have g2: "GenWitnessFunc ?b (witnessType (revokedOutput ?r))
              (signDescriptor (revokedOutput ?r)) (set_Witness 0 [[0]] ?tx0)
              (NewTxSigHashes ?b ?tx0) 1 = Inr [[1]]"
    by (simp add: checking_wallet_def simple_wallet_def AddTxIn_def AddTxOut_def NewMsgTx_def
        set_Witness_def)
  have v: "Value (Output (SelfOutputSignDesc
             (example_closeSummary 3000 :: bytes UnilateralCloseSummary))) =
             amt (selfOutput ?r) + amt (revokedOutput ?r)"
    by (simp add: a example_closeSummary_def)
  note T = createJusticeTx_no_lower_bound [OF lo hi, of ?b]
  from T s g1 g2 have
    c: "fst (createJusticeTx ?b ?r) = Inr (set_Witness 1 [[1]] (set_Witness 0 [[0]] ?tx0))"
    by blast
  from T s v have
    k: "craftCommitSweepTx ?b (example_closeSummary 3000) = Inl ErrOutputTooSmall"
    by blast
  have t: "set_Witness 1 [[1]] (set_Witness 0 [[0]] ?tx0) =
     \<lparr>Version = 2,
          TxIn = [\<lparr>PreviousOutPoint = example_outpoint 1 0, SignatureScript = [],
                    Witness = [[0]], Sequence = 0\<rparr>,
                  \<lparr>PreviousOutPoint = example_outpoint 1 1, SignatureScript = [],
                    Witness = [[1]], Sequence = 0\<rparr>],
          TxOut = [\<lparr>Value = 2000 + 1000 - 5000, PkScript = [0x51]\<rparr>],
          LockTime = 0\<rparr>"
    by (simp add: set_Witness_def AddTxIn_def AddTxOut_def NewMsgTx_def TxIn_of_def
        example_retribution_def example_output_def)
  have "sint (2000 + 1000 - 5000 :: 64 word) = - 2000"
    by simp
  with c k t show ?thesis by simp
qed

section \<open>Properties of the retribution executor\<close>

lemma createJusticeTx_keeps:
  assumes "createJusticeTx w r = (res, r')"
  shows "chanPoint r' = chanPoint r" and "doneChan r' = doneChan r"
  using assms
  by (auto simp: createJusticeTx_def Let_def split: sum.splits)

lemma finalize_calls:
  assumes "finalize b breachInfo st = (ex, bi', st')"
  shows "calls st' = calls st @ [Call_MarkChanFullyClosed (chanPoint breachInfo),
           Call_Remove (chanPoint breachInfo), Call_close_doneChan]"
    and "published st' = published st"
    and "db st' = snd (retributionStore_Remove (store_codec b) (chanPoint breachInfo) (db st))"
    and "fullyClosed st' =
           (case MarkChanFullyClosed b (chanPoint breachInfo) of
              Some e \<Rightarrow> fullyClosed st
            | None \<Rightarrow> chanPoint breachInfo # fullyClosed st)"
    and "ex = (case close_chan (doneChan breachInfo) of Inl p \<Rightarrow> Panicked p | Inr ch \<Rightarrow> Returned)"
  using assms
  by (auto simp: finalize_def db_MarkChanFullyClosed_def called_def Let_def
      split: option.splits sum.splits prod.splits)

text \<open>
  Claim C7. When the \<^verbatim>\<open>Confirmed\<close> channel of the breach transaction yields
  \<^verbatim>\<open>ok = false\<close>, \<^verbatim>\<open>exactRetribution\<close> returns at once: it makes no call at all
  (no justice transaction is built or published, nothing is removed from the store),
  and the retribution, the database, the published transactions and the channels marked
  closed are as they were.
\<close>

theorem exactRetribution_notifier_shutdown:
  "exactRetribution b ChannelClosed breachInfo st = (Returned, breachInfo, st)"
  by (simp add: exactRetribution_def)


lemma exactRetribution_confirmed:
  assumes "createJusticeTx (wallet b) breachInfo = (Inr justiceTx, bi1)"
    and "GetBestBlock b = Inr (h, currentHeight)"
    and "PublishTransaction b justiceTx = None"
    and "RegisterConfirmationsNtfn b (TxHash b justiceTx) 1 currentHeight = Inr Confirmed"
  shows "exactRetribution b Confirmed breachInfo st =
           finalize b bi1
             (called (Call_RegisterConfirmationsNtfn (TxHash b justiceTx))
               ((called (Call_PublishTransaction justiceTx)
                  (called Call_GetBestBlock (called Call_createJusticeTx st)))
                \<lparr>published :=
                   published (called (Call_PublishTransaction justiceTx)
                     (called Call_GetBestBlock (called Call_createJusticeTx st))) @
                   [justiceTx]\<rparr>))"
  using assms by (simp add: exactRetribution_def Let_def)

lemma exactRetribution_trace:
  assumes "exactRetribution b confChan breachInfo st = (ex, bi', st')"
  shows "\<exists>pre. (\<forall>c \<in> set pre. c \<noteq> Call_MarkChanFullyClosed (chanPoint breachInfo) \<and>
                   c \<noteq> Call_Remove (chanPoint breachInfo) \<and> c \<noteq> Call_close_doneChan) \<and>
           ((calls st' = calls st @ pre \<and> doneChan bi' = doneChan breachInfo) \<or>
            calls st' = calls st @ pre @ [Call_MarkChanFullyClosed (chanPoint breachInfo),
              Call_Remove (chanPoint breachInfo), Call_close_doneChan])"
proof (cases confChan)
  case Confirmed
  obtain res bi1 where c: "createJusticeTx (wallet b) breachInfo = (res, bi1)"
    by (cases "createJusticeTx (wallet b) breachInfo")
  note k = createJusticeTx_keeps [OF c]
  show ?thesis
  proof (cases res)
    case (Inl e)
    with assms Confirmed c k have "calls st' = calls st @ [Call_createJusticeTx]"
      "doneChan bi' = doneChan breachInfo"
      by (auto simp: exactRetribution_def called_def)
    then show ?thesis
      by (intro exI [of _ "[Call_createJusticeTx]"]) simp
  next
    case (Inr justiceTx)
    show ?thesis
    proof (cases "GetBestBlock b")
      case (Inl e)
      with assms Confirmed c k Inr have
        "calls st' = calls st @ [Call_createJusticeTx, Call_GetBestBlock]"
        "doneChan bi' = doneChan breachInfo"
        by (auto simp: exactRetribution_def called_def Let_def)
      then show ?thesis
        by (intro exI [of _ "[Call_createJusticeTx, Call_GetBestBlock]"]) simp
    next
      case gbb: (Inr hh)
      obtain h currentHeight where hh: "hh = (h, currentHeight)" by (cases hh)
      show ?thesis
      proof (cases "PublishTransaction b justiceTx")
        case (Some e)
        with assms Confirmed c k Inr gbb hh have
          "calls st' = calls st @ [Call_createJusticeTx, Call_GetBestBlock,
             Call_PublishTransaction justiceTx]"
          "doneChan bi' = doneChan breachInfo"
          by (auto simp: exactRetribution_def called_def Let_def)
        then show ?thesis
          by (intro exI [of _ "[Call_createJusticeTx, Call_GetBestBlock,
             Call_PublishTransaction justiceTx]"]) simp
      next
        case None
        let ?pre = "[Call_createJusticeTx, Call_GetBestBlock,
               Call_PublishTransaction justiceTx,
               Call_RegisterConfirmationsNtfn (TxHash b justiceTx)]"
        show ?thesis
        proof (cases "RegisterConfirmationsNtfn b (TxHash b justiceTx) 1 currentHeight")
          case (Inl e)
          with assms Confirmed c k Inr gbb hh None have
            "calls st' = calls st @ ?pre" "doneChan bi' = doneChan breachInfo"
            by (auto simp: exactRetribution_def called_def Let_def)
          then show ?thesis
            by (intro exI [of _ ?pre]) simp
        next
          case reg: (Inr confChan')
          show ?thesis
          proof (cases "confChan' = Confirmed")
            case False
            with assms Confirmed c k Inr gbb hh None reg have
              "calls st' = calls st @ ?pre" "doneChan bi' = doneChan breachInfo"
              by (cases confChan'; auto simp: exactRetribution_def called_def Let_def)+
            then show ?thesis
              by (intro exI [of _ ?pre]) simp
          next
            case True
            from exactRetribution_confirmed [OF c [unfolded Inr] gbb [unfolded hh] None
                reg [unfolded True], of st] assms Confirmed
            have f: "finalize b bi1
             (called (Call_RegisterConfirmationsNtfn (TxHash b justiceTx))
               ((called (Call_PublishTransaction justiceTx)
                  (called Call_GetBestBlock (called Call_createJusticeTx st)))
                \<lparr>published :=
                   published (called (Call_PublishTransaction justiceTx)
                     (called Call_GetBestBlock (called Call_createJusticeTx st))) @
                   [justiceTx]\<rparr>)) = (ex, bi', st')"
              by simp
            from finalize_calls(1) [OF f] k
            have "calls st' = calls st @ ?pre @ [Call_MarkChanFullyClosed (chanPoint breachInfo),
              Call_Remove (chanPoint breachInfo), Call_close_doneChan]"
              by (simp add: called_def)
            then show ?thesis
              by (intro exI [of _ ?pre]) simp
          qed
        qed
      qed
    qed
  qed
next
  case ChannelClosed
  with assms show ?thesis
    by (intro exI [of _ "[]"]) (auto simp: exactRetribution_def)
next
  case Quit
  with assms show ?thesis
    by (intro exI [of _ "[]"]) (auto simp: exactRetribution_def)
next
  case Never
  with assms show ?thesis
    by (intro exI [of _ "[]"]) (auto simp: exactRetribution_def)
qed

lemma precedes_not_mem: "b \<notin> set cs \<Longrightarrow> precedes a b cs"
  by (induction cs) auto

lemma precedes_append:
  assumes "a \<notin> set pre" and "b \<notin> set pre"
  shows "precedes a b (pre @ cs) = precedes a b cs"
  using assms by (induction pre) auto


text \<open>
  Claim C8. In every execution of \<^verbatim>\<open>exactRetribution\<close>, among the calls it makes, the
  call that marks the channel fully closed comes before the call that removes the
  retribution from the store, and that one before the closing of \<open>doneChan\<close>;
  \<open>doneChan\<close> changes only in an execution that has made both calls. When the
  confirmation of the justice transaction is received (the breach transaction is
  confirmed, the justice transaction is built and published, the notifier registers it
  and its event yields a confirmation), the calls are exactly: build, best block,
  publish, register, mark fully closed, remove, close \<open>doneChan\<close>.
\<close>

theorem exactRetribution_marks_before_removing:
  assumes "exactRetribution b confChan breachInfo st = (ex, bi', st')"
  shows "precedes (Call_MarkChanFullyClosed (chanPoint breachInfo))
           (Call_Remove (chanPoint breachInfo)) (drop (length (calls st)) (calls st')) \<and>
         precedes (Call_Remove (chanPoint breachInfo)) Call_close_doneChan
           (drop (length (calls st)) (calls st')) \<and>
         (doneChan bi' \<noteq> doneChan breachInfo \<longrightarrow>
            Call_MarkChanFullyClosed (chanPoint breachInfo) \<in>
              set (drop (length (calls st)) (calls st')) \<and>
            Call_Remove (chanPoint breachInfo) \<in> set (drop (length (calls st)) (calls st'))) \<and>
         (\<forall>justiceTx bi1 h currentHeight.
            confChan = Confirmed \<and>
            createJusticeTx (wallet b) breachInfo = (Inr justiceTx, bi1) \<and>
            GetBestBlock b = Inr (h, currentHeight) \<and>
            PublishTransaction b justiceTx = None \<and>
            RegisterConfirmationsNtfn b (TxHash b justiceTx) 1 currentHeight = Inr Confirmed \<longrightarrow>
            drop (length (calls st)) (calls st') =
              [Call_createJusticeTx, Call_GetBestBlock, Call_PublishTransaction justiceTx,
               Call_RegisterConfirmationsNtfn (TxHash b justiceTx),
               Call_MarkChanFullyClosed (chanPoint breachInfo),
               Call_Remove (chanPoint breachInfo), Call_close_doneChan])"
proof -
  let ?m = "Call_MarkChanFullyClosed (chanPoint breachInfo)"
  let ?r = "Call_Remove (chanPoint breachInfo)"
  let ?new = "drop (length (calls st)) (calls st')"
  from exactRetribution_trace [OF assms] obtain pre where
    pre: "?m \<notin> set pre" "?r \<notin> set pre" "Call_close_doneChan \<notin> set pre" and
    tr: "(calls st' = calls st @ pre \<and> doneChan bi' = doneChan breachInfo) \<or>
         calls st' = calls st @ pre @ [?m, ?r, Call_close_doneChan]"
    by blast
  have order: "precedes ?m ?r ?new \<and> precedes ?r Call_close_doneChan ?new \<and>
      (doneChan bi' \<noteq> doneChan breachInfo \<longrightarrow> ?m \<in> set ?new \<and> ?r \<in> set ?new)"
  proof -
    from tr consider "calls st' = calls st @ pre" "doneChan bi' = doneChan breachInfo"
      | "calls st' = calls st @ pre @ [?m, ?r, Call_close_doneChan]"
      by blast
    then show ?thesis
    proof cases
      case 1
      then have "?new = pre" by simp
      with pre 1 show ?thesis by (simp add: precedes_not_mem)
    next
      case 2
      then have n: "?new = pre @ [?m, ?r, Call_close_doneChan]" by simp
      show ?thesis
        unfolding n using pre by (simp add: precedes_append)
    qed
  qed
  have exact: "?new =
              [Call_createJusticeTx, Call_GetBestBlock, Call_PublishTransaction justiceTx,
               Call_RegisterConfirmationsNtfn (TxHash b justiceTx), ?m, ?r, Call_close_doneChan]"
    if "confChan = Confirmed"
      and c: "createJusticeTx (wallet b) breachInfo = (Inr justiceTx, bi1)"
      and g: "GetBestBlock b = Inr (h, currentHeight)"
      and p: "PublishTransaction b justiceTx = None"
      and r: "RegisterConfirmationsNtfn b (TxHash b justiceTx) 1 currentHeight = Inr Confirmed"
    for justiceTx bi1 h currentHeight
  proof -
    from exactRetribution_confirmed [OF c g p r, of st] assms that(1)
    have f: "finalize b bi1
             (called (Call_RegisterConfirmationsNtfn (TxHash b justiceTx))
               ((called (Call_PublishTransaction justiceTx)
                  (called Call_GetBestBlock (called Call_createJusticeTx st)))
                \<lparr>published :=
                   published (called (Call_PublishTransaction justiceTx)
                     (called Call_GetBestBlock (called Call_createJusticeTx st))) @
                   [justiceTx]\<rparr>)) = (ex, bi', st')"
      by simp
    from finalize_calls(1) [OF f] createJusticeTx_keeps(1) [OF c]
    show ?thesis by (simp add: called_def)
  qed
  from order exact show ?thesis by blast
qed

text \<open>
  The theorem on a fresh node, with collaborators that all answer and a justice
  transaction that confirms.
\<close>

theorem exactRetribution_marks_before_removing_witness:
  "drop (length (calls fresh_node))
     (calls (snd (snd (exactRetribution (simple_arbiter Confirmed None) Confirmed
        (example_retribution 7000 3000 []) fresh_node)))) =
     [Call_createJusticeTx, Call_GetBestBlock,
      Call_PublishTransaction
        \<lparr>Version = 2,
         TxIn = [\<lparr>PreviousOutPoint = example_outpoint 1 0, SignatureScript = [],
                   Witness = [[0]], Sequence = 0\<rparr>,
                 \<lparr>PreviousOutPoint = example_outpoint 1 1, SignatureScript = [],
                   Witness = [[1]], Sequence = 0\<rparr>],
         TxOut = [\<lparr>Value = 5000, PkScript = [0x51]\<rparr>],
         LockTime = 0\<rparr>,
      Call_RegisterConfirmationsNtfn (replicate 32 0xaa),
      Call_MarkChanFullyClosed (example_outpoint 9 0),
      Call_Remove (example_outpoint 9 0), Call_close_doneChan]"
proof -
  let ?b = "simple_arbiter Confirmed None"
  let ?r = "example_retribution 7000 3000 [] :: (bytes, bytes) retributionInfo"
  let ?tx = "\<lparr>Version = 2,
         TxIn = [\<lparr>PreviousOutPoint = example_outpoint 1 0, SignatureScript = [],
                   Witness = [[0]], Sequence = 0\<rparr>,
                 \<lparr>PreviousOutPoint = example_outpoint 1 1, SignatureScript = [],
                   Witness = [[1]], Sequence = 0\<rparr>],
         TxOut = [\<lparr>Value = 5000, PkScript = [0x51]\<rparr>],
         LockTime = 0\<rparr>"
  obtain ex bi' st' where e: "exactRetribution ?b Confirmed ?r fresh_node = (ex, bi', st')"
    by (cases "exactRetribution ?b Confirmed ?r fresh_node")
  obtain bi1 where c: "createJusticeTx (wallet ?b) ?r = (Inr ?tx, bi1)"
    by (simp add: createJusticeTx_def simple_arbiter_def simple_wallet_def Let_def
        NewMsgTx_def AddTxIn_def AddTxOut_def TxIn_of_def set_Witness_def
        example_retribution_def example_output_def)
  have g: "GetBestBlock ?b = Inr (replicate 32 0, 100)"
    and p: "PublishTransaction ?b ?tx = None"
    and r: "RegisterConfirmationsNtfn ?b (TxHash ?b ?tx) 1 100 = Inr Confirmed"
    and t: "TxHash ?b ?tx = replicate 32 0xaa"
    by (simp_all add: simple_arbiter_def)
  have cp: "chanPoint ?r = example_outpoint 9 0"
    by (simp add: example_retribution_def)
  from exactRetribution_marks_before_removing [OF e] c g p r
  have "drop (length (calls fresh_node)) (calls st') =
     [Call_createJusticeTx, Call_GetBestBlock, Call_PublishTransaction ?tx,
      Call_RegisterConfirmationsNtfn (TxHash ?b ?tx),
      Call_MarkChanFullyClosed (chanPoint ?r), Call_Remove (chanPoint ?r),
      Call_close_doneChan]"
    by blast
  then show ?thesis
    by (simp add: e t cp)
qed


lemma Bucket_Delete_key: "k \<notin> fst ` set (Bucket_Delete k bkt)"
  by (auto simp: Bucket_Delete_def)

text \<open>
  Claim C9. After the justice transaction has confirmed, \<^verbatim>\<open>exactRetribution\<close> calls
  \<^verbatim>\<open>Remove\<close> also when \<^verbatim>\<open>MarkChanFullyClosed\<close> has just returned an error:
  the calls that follow the registration are mark, remove, close \<open>doneChan\<close>, the
  database is the one \<^verbatim>\<open>Remove\<close> leaves, so that a bucket that held the record of
  the channel point no longer holds it, while the set of channels marked fully closed is
  unchanged; and the executor returns as it does without the error (it panics only on
  closing a \<open>doneChan\<close> that is nil or closed).
\<close>

theorem exactRetribution_removes_after_failed_mark:
  assumes "createJusticeTx (wallet b) breachInfo = (Inr justiceTx, bi1)"
    and "GetBestBlock b = Inr (h, currentHeight)"
    and "PublishTransaction b justiceTx = None"
    and "RegisterConfirmationsNtfn b (TxHash b justiceTx) 1 currentHeight = Inr Confirmed"
    and "MarkChanFullyClosed b (chanPoint breachInfo) = Some e"
    and "exactRetribution b Confirmed breachInfo st = (ex, bi', st')"
  shows "drop (length (calls st) + 4) (calls st') =
           [Call_MarkChanFullyClosed (chanPoint breachInfo),
            Call_Remove (chanPoint breachInfo), Call_close_doneChan] \<and>
         db st' = snd (retributionStore_Remove (store_codec b) (chanPoint breachInfo) (db st)) \<and>
         (\<forall>bkt k. db st retributionBucket = Some bkt \<and>
            writeOutpoint (store_codec b) (chanPoint breachInfo) = Inr k \<longrightarrow>
            db st' retributionBucket = Some (Bucket_Delete k bkt) \<and>
            k \<notin> fst ` set (Bucket_Delete k bkt)) \<and>
         fullyClosed st' = fullyClosed st \<and>
         ex = (case close_chan (doneChan breachInfo) of
                 Inl p \<Rightarrow> Panicked p | Inr ch \<Rightarrow> Returned)"
proof -
  from exactRetribution_confirmed [OF assms(1-4), of st] assms(6)
  have f: "finalize b bi1
             (called (Call_RegisterConfirmationsNtfn (TxHash b justiceTx))
               ((called (Call_PublishTransaction justiceTx)
                  (called Call_GetBestBlock (called Call_createJusticeTx st)))
                \<lparr>published :=
                   published (called (Call_PublishTransaction justiceTx)
                     (called Call_GetBestBlock (called Call_createJusticeTx st))) @
                   [justiceTx]\<rparr>)) = (ex, bi', st')"
    by simp
  note k = createJusticeTx_keeps [OF assms(1)]
  note F = finalize_calls [OF f, unfolded k]
  from F(1) have c: "drop (length (calls st) + 4) (calls st') =
           [Call_MarkChanFullyClosed (chanPoint breachInfo),
            Call_Remove (chanPoint breachInfo), Call_close_doneChan]"
    by (simp add: called_def)
  from F(3) have d: "db st' =
      snd (retributionStore_Remove (store_codec b) (chanPoint breachInfo) (db st))"
    by (simp add: called_def)
  have r: "db st' retributionBucket = Some (Bucket_Delete k bkt) \<and>
            k \<notin> fst ` set (Bucket_Delete k bkt)"
    if "db st retributionBucket = Some bkt"
      "writeOutpoint (store_codec b) (chanPoint breachInfo) = Inr k" for bkt k
    using Remove_existing_bucket [where s = "db st", OF that]
    by (simp add: d Bucket_Delete_key)
  from F(4) assms(5) have fc: "fullyClosed st' = fullyClosed st"
    by (simp add: called_def)
  from c d r fc F(5) show ?thesis by blast
qed

text \<open>
  The theorem on a node whose store holds the record of the breached channel, with a
  channel database that fails: the record is gone and no channel is marked closed.
\<close>

theorem exactRetribution_removes_after_failed_mark_witness:
  "(\<exists>v. db (fresh_node\<lparr>db := snd (retributionStore_Add simple_codec
              (example_retribution 7000 3000 []) Map.empty)\<rparr>) retributionBucket =
         Some [(replicate 32 9 @ PutUint32_BE 0, v)]) \<and>
   fst (exactRetribution (simple_arbiter Confirmed (Some (ErrCollaborator ''disk'')))
          Confirmed (example_retribution 7000 3000 [])
          (fresh_node\<lparr>db := snd (retributionStore_Add simple_codec
              (example_retribution 7000 3000 []) Map.empty)\<rparr>)) = Returned \<and>
   db (snd (snd (exactRetribution (simple_arbiter Confirmed (Some (ErrCollaborator ''disk'')))
          Confirmed (example_retribution 7000 3000 [])
          (fresh_node\<lparr>db := snd (retributionStore_Add simple_codec
              (example_retribution 7000 3000 []) Map.empty)\<rparr>)))) retributionBucket = Some [] \<and>
   fullyClosed (snd (snd (exactRetribution
          (simple_arbiter Confirmed (Some (ErrCollaborator ''disk'')))
          Confirmed (example_retribution 7000 3000 [])
          (fresh_node\<lparr>db := snd (retributionStore_Add simple_codec
              (example_retribution 7000 3000 []) Map.empty)\<rparr>)))) = []"
proof -
  let ?b = "simple_arbiter Confirmed (Some (ErrCollaborator ''disk''))"
  let ?r = "example_retribution 7000 3000 [] :: (bytes, bytes) retributionInfo"
  let ?st = "fresh_node\<lparr>db := snd (retributionStore_Add simple_codec ?r Map.empty)\<rparr>"
  let ?k = "replicate 32 9 @ PutUint32_BE 0"
  let ?tx = "\<lparr>Version = 2,
         TxIn = [\<lparr>PreviousOutPoint = example_outpoint 1 0, SignatureScript = [],
                   Witness = [[0]], Sequence = 0\<rparr>,
                 \<lparr>PreviousOutPoint = example_outpoint 1 1, SignatureScript = [],
                   Witness = [[1]], Sequence = 0\<rparr>],
         TxOut = [\<lparr>Value = 5000, PkScript = [0x51]\<rparr>],
         LockTime = 0\<rparr>"
  obtain s1 where a1: "retributionStore_Add simple_codec ?r Map.empty = (None, s1)"
    using simple_Add_example by blast
  have w: "writeOutpoint simple_codec (chanPoint ?r) = Inr ?k"
    by (simp add: simple_codec_def simple_writeOutpoint_def example_retribution_def
        example_outpoint_def)
  from Add_result [OF a1] w obtain v b' where
    p: "Bucket_Put ?k v [] = Inr b'" and s1: "s1 = [retributionBucket \<mapsto> b']"
    by auto
  from p have b': "b' = [(?k, v)]"
    by (simp add: Bucket_Put_def split: if_splits)
  have held: "db ?st retributionBucket = Some [(?k, v)]"
    by (simp add: a1 s1 b')
  obtain ex bi' st' where e: "exactRetribution ?b Confirmed ?r ?st = (ex, bi', st')"
    by (cases "exactRetribution ?b Confirmed ?r ?st")
  obtain bi1 where c: "createJusticeTx (wallet ?b) ?r = (Inr ?tx, bi1)"
    by (simp add: createJusticeTx_def simple_arbiter_def simple_wallet_def Let_def
        NewMsgTx_def AddTxIn_def AddTxOut_def TxIn_of_def set_Witness_def
        example_retribution_def example_output_def)
  have g: "GetBestBlock ?b = Inr (replicate 32 0, 100)"
    and pb: "PublishTransaction ?b ?tx = None"
    and r: "RegisterConfirmationsNtfn ?b (TxHash ?b ?tx) 1 100 = Inr Confirmed"
    and m: "MarkChanFullyClosed ?b (chanPoint ?r) = Some (ErrCollaborator ''disk'')"
    and sc: "store_codec ?b = simple_codec"
    by (simp_all add: simple_arbiter_def)
  have dc: "close_chan (doneChan ?r) = Inr ClosedChan"
    by (simp add: close_chan_def example_retribution_def)
  from exactRetribution_removes_after_failed_mark [OF c g pb r m e] held w
  have "db st' retributionBucket = Some (Bucket_Delete ?k [(?k, v)])"
    and "fullyClosed st' = fullyClosed ?st" and "ex = Returned"
    by (auto simp: sc dc)
  moreover have "fullyClosed fresh_node = []"
    by (simp add: fresh_node_def)
  ultimately show ?thesis
    using held by (simp add: e Bucket_Delete_def)
qed

end
